theory Spec2Isabelle
  imports
    Complex_Main
    "HOL-Library.Char_ord"
    "HOL-Library.List_Lexorder"
    "HOL-Library.Product_Lexorder"
begin

section \<open>Numbers, missing values and the Record Table\<close>

text \<open>
  The analytics engine of \<^verbatim>\<open>src/analysis/analyze_data.py\<close> works on pandas data frames
  of 64-bit floats. The embedding keeps what the claims are about, the treatment of missing
  values (NaN), of division by zero and of the group keys, and abstracts the rounding of
  floating-point arithmetic: a finite float is a \<^typ>\<open>real\<close>.

  \<^item> A measure cell of the input (\<^verbatim>\<open>quantity\<close>, \<^verbatim>\<open>unit_price\<close>, \<^verbatim>\<open>net_value\<close>) is
    a \<^typ>\<open>real option\<close>; \<open>None\<close> is NaN, the result of \<^verbatim>\<open>pd.to_numeric(errors='coerce')\<close>
    on an unparseable value. Infinite input cells are not modelled.
  \<^item> A key cell (\<^verbatim>\<open>product_id\<close>, \<^verbatim>\<open>supplier_id\<close>, ...) is a \<^typ>\<open>string option\<close>;
    \<open>None\<close> is the null of an empty CSV field.
  \<^item> The result of a float division is an \<open>fval\<close>: finite, plus or minus infinity, or NaN.
\<close>

datatype fval = Finite real | PosInf | NegInf | NaN

text \<open>IEEE-754 division of two finite floats, as numpy performs it (a warning, no exception).\<close>

definition fdiv :: "real \<Rightarrow> real \<Rightarrow> fval" where
  "fdiv a b =
     (if b \<noteq> 0 then Finite (a / b)
      else if a > 0 then PosInf
      else if a < 0 then NegInf
      else NaN)"

text \<open>Multiplication of a float by a positive finite constant (the \<^verbatim>\<open>* 100\<close> of the source).\<close>

fun fscale :: "fval \<Rightarrow> real \<Rightarrow> fval" where
  "fscale (Finite x) c = Finite (x * c)"
| "fscale PosInf c = PosInf"
| "fscale NegInf c = NegInf"
| "fscale NaN c = NaN"

text \<open>The comparison \<^verbatim>\<open>x <= c\<close>; every comparison with NaN is false.\<close>

fun fle :: "fval \<Rightarrow> real \<Rightarrow> bool" where
  "fle (Finite x) c = (x \<le> c)"
| "fle NegInf c = True"
| "fle PosInf c = False"
| "fle NaN c = False"

text \<open>NaN-propagating subtraction and multiplication of measure cells.\<close>

fun nsub :: "real option \<Rightarrow> real option \<Rightarrow> real option" where
  "nsub (Some x) (Some y) = Some (x - y)"
| "nsub _ _ = None"

fun nmul :: "real option \<Rightarrow> real option \<Rightarrow> real option" where
  "nmul (Some x) (Some y) = Some (x * y)"
| "nmul _ _ = None"

text \<open>A calendar date (year, month, day); the monthly bucket of a date is (year, month).\<close>

type_synonym date = "nat \<times> nat \<times> nat"
type_synonym month_bucket = "nat \<times> nat"

record row =
  purchase_order_id :: "string option"
  product_id :: "string option"
  supplier_id :: "string option"
  department :: "string option"
  description :: "string option"
  created_date :: "date option"
  quantity :: "real option"
  unit_price :: "real option"
  net_value :: "real option"

section \<open>Aggregation primitives\<close>

text \<open>The non-missing values of a column, in order.\<close>

fun dropna :: "'a option list \<Rightarrow> 'a list" where
  "dropna [] = []"
| "dropna (None # xs) = dropna xs"
| "dropna (Some x # xs) = x # dropna xs"

text \<open>\<^verbatim>\<open>Series.sum()\<close>: NaN is skipped, the sum of no value is 0.\<close>

definition series_sum :: "real option list \<Rightarrow> real" where
  "series_sum xs = sum_list (dropna xs)"

text \<open>
  \<^verbatim>\<open>mean\<close>, \<^verbatim>\<open>min\<close>: NaN is skipped, the result over no value is NaN. The minimum is one
  of the values, in floating point too. The mean is the exact quotient here, while the
  float64 mean that pandas computes is rounded and can fall below the smallest value of the
  group (three prices of 0.70 have the mean 0.6999999999999998). A theorem that compares a
  mean with another value takes the comparison as a hypothesis on the computed row.
\<close>

definition series_mean :: "real option list \<Rightarrow> real option" where
  "series_mean xs =
     (let vs = dropna xs
      in if vs = [] then None else Some (sum_list vs / real (length vs)))"

definition series_min :: "real option list \<Rightarrow> real option" where
  "series_min xs =
     (let vs = dropna xs
      in if vs = [] then None else Some (min_list vs))"

text \<open>\<^verbatim>\<open>std\<close>: the sample standard deviation (ddof = 1), NaN for fewer than two values.\<close>

definition series_std :: "real option list \<Rightarrow> real option" where
  "series_std xs =
     (let vs = dropna xs; n = length vs
      in if n \<le> 1 then None
         else (let m = sum_list vs / real n
               in Some (sqrt (sum_list (map (\<lambda>x. (x - m)\<^sup>2) vs) / real (n - 1)))))"

text \<open>\<^verbatim>\<open>nunique()\<close>: the number of distinct non-missing values.\<close>

definition series_nunique :: "'a option list \<Rightarrow> nat" where
  "series_nunique xs = length (remdups (dropna xs))"

text \<open>
  \<^verbatim>\<open>df.groupby(keys)\<close> with the defaults \<^verbatim>\<open>sort=True, dropna=True\<close>: one group per
  distinct key among the rows whose key is not missing, in ascending key order. With several
  key columns the key of a row is missing as soon as one component is.
\<close>

definition groupby_keys :: "('r \<Rightarrow> 'k::linorder option) \<Rightarrow> 'r list \<Rightarrow> 'k list" where
  "groupby_keys key df = sort (remdups (dropna (map key df)))"

definition group_rows :: "('r \<Rightarrow> 'k option) \<Rightarrow> 'r list \<Rightarrow> 'k \<Rightarrow> 'r list" where
  "group_rows key df k = filter (\<lambda>r. key r = Some k) df"

text \<open>\<^verbatim>\<open>drop_duplicates()\<close> keeps the first occurrence of each row.\<close>

definition drop_duplicates :: "'a list \<Rightarrow> 'a list" where
  "drop_duplicates xs = rev (remdups (rev xs))"

definition key_product_description :: "row \<Rightarrow> (string \<times> string) option" where
  "key_product_description r =
     (case (product_id r, description r) of
        (Some p, Some d) \<Rightarrow> Some (p, d)
      | _ \<Rightarrow> None)"

definition key_sku :: "row \<Rightarrow> (string \<times> string \<times> string \<times> string) option" where
  "key_sku r =
     (case (department r, product_id r, description r, supplier_id r) of
        (Some dp, Some p, Some d, Some s) \<Rightarrow> Some (dp, p, d, s)
      | _ \<Rightarrow> None)"

section \<open>Formatting of the KPI values\<close>

text \<open>
  Python's format specifications \<^verbatim>\<open>{:,}\<close>, \<^verbatim>\<open>{:,.2f}\<close> and \<^verbatim>\<open>{:.2f}\<close>. Rounding to two
  decimals is half-to-even on the (real) value; NaN prints as \<^verbatim>\<open>nan\<close>, the infinities
  as \<^verbatim>\<open>inf\<close> and \<^verbatim>\<open>-inf\<close>.
\<close>

definition digit_char :: "nat \<Rightarrow> char" where
  "digit_char n = ''0123456789'' ! (n mod 10)"

text \<open>The decimal digits of a non-negative integer.\<close>

function int_digits :: "int \<Rightarrow> string" where
  "int_digits n =
     (if n < 10 then [digit_char (nat n)]
      else int_digits (n div 10) @ [digit_char (nat (n mod 10))])"
  by pat_completeness auto
termination
  by (relation "measure nat") auto

function group3 :: "string \<Rightarrow> string" where
  "group3 ds =
     (if length ds \<le> 3 then ds
      else group3 (take (length ds - 3) ds) @ '','' @ drop (length ds - 3) ds)"
  by pat_completeness auto
termination
  by (relation "measure length") auto

definition fmt_int_commas :: "nat \<Rightarrow> string" where
  "fmt_int_commas n = group3 (int_digits (int n))"

definition round_half_even :: "real \<Rightarrow> int" where
  "round_half_even x =
     (let f = \<lfloor>x\<rfloor>; d = x - of_int f
      in if d < 1 / 2 then f
         else if d > 1 / 2 then f + 1
         else if even f then f else f + 1)"

definition fmt_fixed2 :: "bool \<Rightarrow> real \<Rightarrow> string" where
  "fmt_fixed2 commas x =
     (let c = round_half_even (\<bar>x\<bar> * 100);
          ip = int_digits (c div 100);
          fp = [digit_char (nat ((c mod 100) div 10)), digit_char (nat (c mod 10))]
      in (if x < 0 then ''-'' else '''') @ (if commas then group3 ip else ip) @ ''.'' @ fp)"

fun fmt_fval_fixed2 :: "fval \<Rightarrow> string" where
  "fmt_fval_fixed2 (Finite x) = fmt_fixed2 False x"
| "fmt_fval_fixed2 PosInf = ''inf''"
| "fmt_fval_fixed2 NegInf = ''-inf''"
| "fmt_fval_fixed2 NaN = ''nan''"

section \<open>KPI Calculator\<close>

text \<open>
  \<^verbatim>\<open>pd.merge(df, right, on='product_id')\<close>, an inner join: every row of \<open>df\<close>, in order,
  paired with the rows of \<open>right\<close> that carry its product id. A row whose product id is
  missing finds no partner, since the right-hand tables below come from a \<^verbatim>\<open>groupby\<close>.
\<close>

definition merge_on_product :: "'a list \<Rightarrow> ('a \<Rightarrow> string option) \<Rightarrow> (string \<times> 'b) list \<Rightarrow> ('a \<times> 'b) list" where
  "merge_on_product left pid right =
     concat (map (\<lambda>l. map (\<lambda>(p, v). (l, v)) (filter (\<lambda>(p, v). pid l = Some p) right)) left)"

definition min_price_per_product :: "row list \<Rightarrow> (string \<times> real option) list" where
  "min_price_per_product df =
     map (\<lambda>p. (p, series_min (map unit_price (group_rows product_id df p))))
       (groupby_keys product_id df)"

definition saving_potential :: "row list \<Rightarrow> real" where
  "saving_potential df =
     (let saving_potential_df = min_price_per_product df;
          df_merged = merge_on_product df product_id saving_potential_df
      in series_sum (map (\<lambda>(r, min_price). nmul (nsub (unit_price r) min_price) (quantity r)) df_merged))"

definition supplier_counts :: "row list \<Rightarrow> (string \<times> nat) list" where
  "supplier_counts df =
     map (\<lambda>p. (p, series_nunique (map supplier_id (group_rows product_id df p))))
       (groupby_keys product_id df)"

definition fragmented_skus :: "row list \<Rightarrow> nat" where
  "fragmented_skus df = length (filter (\<lambda>(p, c). c > 1) (supplier_counts df))"

text \<open>
  The fragmentation rate divides a numpy integer by the number of distinct products:
  a true division of floats, which returns NaN for 0 / 0 where Python's own integers would
  raise \<^verbatim>\<open>ZeroDivisionError\<close>.
\<close>

definition fragmentation_rate :: "row list \<Rightarrow> fval" where
  "fragmentation_rate df =
     fscale (fdiv (real (fragmented_skus df)) (real (series_nunique (map product_id df)))) 100"

definition calculate_kpis :: "row list \<Rightarrow> (string \<times> string) list" where
  "calculate_kpis df =
     (let total_spend = series_sum (map net_value df)
      in [(''Total Spend'', ''$'' @ fmt_fixed2 True total_spend),
          (''Potential Savings'', ''$'' @ fmt_fixed2 True (saving_potential df)),
          (''Total Purchase Orders'', fmt_int_commas (series_nunique (map purchase_order_id df))),
          (''Total Active Suppliers'', fmt_int_commas (series_nunique (map supplier_id df))),
          (''Fragmented SKUs'', fmt_int_commas (fragmented_skus df)),
          (''Fragmentation Rate (%)'', fmt_fval_fixed2 (fragmentation_rate df) @ ''%'')])"

section \<open>SKU Analysis View\<close>

record sku_row =
  sku_department :: string
  sku_product_id :: string
  sku_description :: string
  sku_supplier_id :: string
  quantity_purchased :: real
  avg_price_paid :: "real option"
  best_available_price :: "real option"
  cost_above_best_price :: "real option"

text \<open>
  The grouped table of step 1, before the join: one row per (department, product, description,
  supplier) key, with the summed quantity and the mean unit price of the group.
\<close>

definition sku_groups :: "row list \<Rightarrow> ((string \<times> string \<times> string \<times> string) \<times> real \<times> real option) list" where
  "sku_groups df =
     map (\<lambda>k. (k, series_sum (map quantity (group_rows key_sku df k)),
                  series_mean (map unit_price (group_rows key_sku df k))))
       (groupby_keys key_sku df)"

definition calculate_sku_analysis :: "row list \<Rightarrow> sku_row list" where
  "calculate_sku_analysis df =
     (let best_prices_per_sku = min_price_per_product df;
          merged = merge_on_product (sku_groups df) (\<lambda>((dp, p, d, s), q, a). Some p) best_prices_per_sku
      in map (\<lambda>(((dp, p, d, s), q, a), best).
                \<lparr>sku_department = dp, sku_product_id = p, sku_description = d, sku_supplier_id = s,
                 quantity_purchased = q, avg_price_paid = a, best_available_price = best,
                 cost_above_best_price = nmul (nsub a best) (Some q)\<rparr>) merged)"

text \<open>
  \<^verbatim>\<open>filter_sku_analysis\<close>. The router passes \<^verbatim>\<open>None\<close> for an absent list parameter, and
  \<^verbatim>\<open>not departments\<close> holds for \<^verbatim>\<open>None\<close> and for the empty list alike. The comparison
  \<^verbatim>\<open>cost_above_best_price >= cost_threshold\<close> is false on a missing cost.
\<close>

definition is_empty_filter :: "string list option \<Rightarrow> bool" where
  "is_empty_filter f = (case f of None \<Rightarrow> True | Some xs \<Rightarrow> xs = [])"

definition isin :: "string \<Rightarrow> string list option \<Rightarrow> bool" where
  "isin x f = (case f of None \<Rightarrow> False | Some xs \<Rightarrow> x \<in> set xs)"

fun nge :: "real option \<Rightarrow> real \<Rightarrow> bool" where
  "nge (Some x) c = (x \<ge> c)"
| "nge None c = False"

definition filter_sku_analysis ::
    "sku_row list \<Rightarrow> string list option \<Rightarrow> string list option \<Rightarrow> real \<Rightarrow> sku_row list" where
  "filter_sku_analysis df departments suppliers cost_threshold =
     (if is_empty_filter departments \<and> is_empty_filter suppliers \<and> cost_threshold = 0 then df
      else
        (let f1 = (if \<not> is_empty_filter departments
                   then filter (\<lambda>r. isin (sku_department r) departments) df else df);
             f2 = (if \<not> is_empty_filter suppliers
                   then filter (\<lambda>r. isin (sku_supplier_id r) suppliers) f1 else f1)
         in filter (\<lambda>r. nge (cost_above_best_price r) cost_threshold) f2))"

section \<open>Risk Analyzer\<close>

record summary_row =
  ss_product_id :: string
  ss_description :: string
  total_net_value :: real
  supplier_count :: nat

text \<open>
  \<^verbatim>\<open>sort_values(col, ascending=False)\<close> is modelled as a stable sort; the order pandas gives
  to rows of equal value is not fixed by the source.
\<close>

definition sku_summary :: "row list \<Rightarrow> summary_row list" where
  "sku_summary df =
     sort_key (\<lambda>g. - total_net_value g)
       (map (\<lambda>(p, d).
               \<lparr>ss_product_id = p, ss_description = d,
                total_net_value = series_sum (map net_value (group_rows key_product_description df (p, d))),
                supplier_count = series_nunique (map supplier_id (group_rows key_product_description df (p, d)))\<rparr>)
          (groupby_keys key_product_description df))"

fun cumsum_from :: "real \<Rightarrow> real list \<Rightarrow> real list" where
  "cumsum_from acc [] = []"
| "cumsum_from acc (x # xs) = (acc + x) # cumsum_from (acc + x) xs"

definition cumsum :: "real list \<Rightarrow> real list" where
  "cumsum xs = cumsum_from 0 xs"

text \<open>
  The cumulative percentages are exact quotients here. In float64 a share of exactly 80%
  can compute to 80.00000000000001 (1.12 of 1.40) and fall outside the cut; which groups sit
  on the boundary is decided by the computed value, and the theorems on the cut speak of
  the computed percentage.
\<close>

definition cum_spend_pct :: "summary_row list \<Rightarrow> fval list" where
  "cum_spend_pct s =
     map (\<lambda>c. fscale (fdiv c (sum_list (map total_net_value s))) 100)
       (cumsum (map total_net_value s))"

definition top_spend_skus :: "summary_row list \<Rightarrow> string list" where
  "top_spend_skus s =
     map (\<lambda>(g, pct). ss_product_id g) (filter (\<lambda>(g, pct). fle pct 80) (zip s (cum_spend_pct s)))"

definition critical_single_sourced_skus :: "row list \<Rightarrow> summary_row list" where
  "critical_single_sourced_skus df =
     (let s = sku_summary df
      in filter (\<lambda>g. ss_product_id g \<in> set (top_spend_skus s) \<and> supplier_count g = 1) s)"

record risk_row =
  risk_product_id :: string
  risk_description :: string
  risk_supplier_id :: "string option"
  risk_total_net_value :: real

text \<open>
  \<^verbatim>\<open>supplier_info\<close> keeps every distinct (product, supplier) pair of the table, a missing
  supplier included; the join is on the product id alone.
\<close>

definition supplier_info :: "row list \<Rightarrow> (string option \<times> string option) list" where
  "supplier_info df = drop_duplicates (map (\<lambda>r. (product_id r, supplier_id r)) df)"

definition calculate_critical_suppliers :: "row list \<Rightarrow> risk_row list" where
  "calculate_critical_suppliers df =
     (let critical_risk_suppliers =
            concat (map (\<lambda>g. map (\<lambda>(p, s).
                                  \<lparr>risk_product_id = ss_product_id g, risk_description = ss_description g,
                                   risk_supplier_id = s, risk_total_net_value = total_net_value g\<rparr>)
                               (filter (\<lambda>(p, s). p = Some (ss_product_id g)) (supplier_info df)))
                     (critical_single_sourced_skus df))
      in sort_key (\<lambda>r. - risk_total_net_value r) critical_risk_suppliers)"

section \<open>Volatility Analyzer\<close>

record vol_row =
  pv_product_id :: string
  pv_description :: string
  pv_mean :: "real option"
  pv_std :: "real option"
  pv_cv :: fval

text \<open>\<^verbatim>\<open>(std / mean) * 100\<close> on two cells that may be missing.\<close>

fun cv_pct :: "real option \<Rightarrow> real option \<Rightarrow> fval" where
  "cv_pct (Some s) (Some m) = fscale (fdiv s m) 100"
| "cv_pct _ _ = NaN"

text \<open>
  The position of a value in a descending sort with \<^verbatim>\<open>na_position='last'\<close>: plus infinity
  first, the finite values from large to small, minus infinity, NaN at the end.
\<close>

fun desc_rank :: "fval \<Rightarrow> nat \<times> real" where
  "desc_rank PosInf = (0, 0)"
| "desc_rank (Finite x) = (1, - x)"
| "desc_rank NegInf = (2, 0)"
| "desc_rank NaN = (3, 0)"

fun fillna0_cell :: "real option \<Rightarrow> real option" where
  "fillna0_cell None = Some 0"
| "fillna0_cell (Some x) = Some x"

fun fillna0_fval :: "fval \<Rightarrow> fval" where
  "fillna0_fval NaN = Finite 0"
| "fillna0_fval v = v"

definition fillna0 :: "vol_row \<Rightarrow> vol_row" where
  "fillna0 r = r\<lparr>pv_mean := fillna0_cell (pv_mean r), pv_std := fillna0_cell (pv_std r),
                  pv_cv := fillna0_fval (pv_cv r)\<rparr>"

definition price_volatility_groups :: "row list \<Rightarrow> vol_row list" where
  "price_volatility_groups df =
     map (\<lambda>(p, d).
            (let prices = map unit_price (group_rows key_product_description df (p, d))
             in \<lparr>pv_product_id = p, pv_description = d,
                 pv_mean = series_mean prices, pv_std = series_std prices,
                 pv_cv = cv_pct (series_std prices) (series_mean prices)\<rparr>))
       (groupby_keys key_product_description df)"

definition calculate_price_volatility :: "row list \<Rightarrow> vol_row list" where
  "calculate_price_volatility df =
     map fillna0 (sort_key (\<lambda>r. desc_rank (pv_cv r)) (price_volatility_groups df))"

section \<open>Output boundary\<close>

text \<open>
  \<^verbatim>\<open>to_json_safe_dict\<close> of \<^verbatim>\<open>src/api/routers/purchase_orders.py\<close>: the frame becomes a list
  of records (column name, cell), with every NaN cell replaced by \<^verbatim>\<open>None\<close>. Nothing else
  is replaced.
\<close>

datatype cell = CStr string | CNum fval | CNone

type_synonym json_record = "(string \<times> cell) list"

definition replace_nan :: "cell \<Rightarrow> cell" where
  "replace_nan c = (if c = CNum NaN then CNone else c)"

definition to_json_safe_dict :: "json_record list \<Rightarrow> json_record list" where
  "to_json_safe_dict df = map (map (\<lambda>(col, c). (col, replace_nan c))) df"

fun cell_of_num :: "real option \<Rightarrow> cell" where
  "cell_of_num None = CNum NaN"
| "cell_of_num (Some x) = CNum (Finite x)"

definition volatility_frame :: "vol_row list \<Rightarrow> json_record list" where
  "volatility_frame rows =
     map (\<lambda>r. [(''product_id'', CStr (pv_product_id r)), (''description'', CStr (pv_description r)),
                (''mean'', cell_of_num (pv_mean r)), (''std'', cell_of_num (pv_std r)),
                (''CV_%'', CNum (pv_cv r))]) rows"

text \<open>The endpoint \<^verbatim>\<open>/risk/price-volatility\<close>.\<close>

definition get_price_volatility :: "row list \<Rightarrow> json_record list" where
  "get_price_volatility master_df = to_json_safe_dict (volatility_frame (calculate_price_volatility master_df))"

section \<open>Demand Forecaster\<close>


datatype findex = MonthEnd month_bucket | Position nat











section \<open>Reference formulas and example tables\<close>

text \<open>
  The per-row formula of the Potential Savings KPI: the minimum unit price observed for a
  product id over the whole table, and the overpayment of one row against it. A row whose
  product id is missing has no observed minimum, so its overpayment is missing.
\<close>

definition min_price_observed :: "row list \<Rightarrow> string option \<Rightarrow> real option" where
  "min_price_observed df pid =
     (case pid of None \<Rightarrow> None
      | Some p \<Rightarrow> series_min (map unit_price (filter (\<lambda>r. product_id r = Some p) df)))"

definition row_overpayment :: "row list \<Rightarrow> row \<Rightarrow> real option" where
  "row_overpayment df r = nmul (nsub (unit_price r) (min_price_observed df (product_id r))) (quantity r)"

text \<open>The two-row table of the end-to-end KPI example.\<close>

definition example_p1_10 :: row where
  "example_p1_10 = \<lparr>purchase_order_id = Some ''PO1'', product_id = Some ''P1'', supplier_id = Some ''S1'',
     department = Some ''D1'', description = Some ''Widget'', created_date = Some (2024, 1, 15),
     quantity = Some 1, unit_price = Some 10, net_value = Some 10\<rparr>"

definition example_p1_20 :: row where
  "example_p1_20 = \<lparr>purchase_order_id = Some ''PO2'', product_id = Some ''P1'', supplier_id = Some ''S2'',
     department = Some ''D1'', description = Some ''Widget'', created_date = Some (2024, 2, 15),
     quantity = Some 1, unit_price = Some 20, net_value = Some 20\<rparr>"

text \<open>A line item whose product id is missing.\<close>

definition row_without_product :: row where
  "row_without_product = \<lparr>purchase_order_id = Some ''PO9'', product_id = None, supplier_id = Some ''S1'',
     department = Some ''D1'', description = Some ''Unlabelled'', created_date = Some (2024, 3, 1),
     quantity = Some 2, unit_price = Some 5, net_value = Some 10\<rparr>"

text \<open>
  The row that the SKU analysis holds for one group key: the summed quantity and mean price
  of the group, the minimum price of its product over the whole table, and the cost.
\<close>

definition sku_row_of_key :: "row list \<Rightarrow> string \<times> string \<times> string \<times> string \<Rightarrow> sku_row" where
  "sku_row_of_key df k =
     (case k of (dp, p, d, s) \<Rightarrow>
        (let q = series_sum (map quantity (group_rows key_sku df k));
             a = series_mean (map unit_price (group_rows key_sku df k));
             best = min_price_observed df (Some p)
         in \<lparr>sku_department = dp, sku_product_id = p, sku_description = d, sku_supplier_id = s,
             quantity_purchased = q, avg_price_paid = a, best_available_price = best,
             cost_above_best_price = nmul (nsub a best) (Some q)\<rparr>))"

definition sku_key :: "sku_row \<Rightarrow> string \<times> string \<times> string \<times> string" where
  "sku_key r = (sku_department r, sku_product_id r, sku_description r, sku_supplier_id r)"

text \<open>Line items with a missing department, a negative quantity (a return), an unparseable price.\<close>

definition row_without_department :: row where
  "row_without_department = \<lparr>purchase_order_id = Some ''PO7'', product_id = Some ''P7'', supplier_id = Some ''S1'',
     department = None, description = Some ''Gasket'', created_date = Some (2024, 3, 1),
     quantity = Some 2, unit_price = Some 5, net_value = Some 10\<rparr>"

definition return_p1_20 :: row where
  "return_p1_20 = \<lparr>purchase_order_id = Some ''PO3'', product_id = Some ''P1'', supplier_id = Some ''S2'',
     department = Some ''D1'', description = Some ''Widget'', created_date = Some (2024, 2, 20),
     quantity = Some (-1), unit_price = Some 20, net_value = Some (-20)\<rparr>"

definition unpriced_p2 :: row where
  "unpriced_p2 = \<lparr>purchase_order_id = Some ''PO4'', product_id = Some ''P2'', supplier_id = Some ''S3'',
     department = Some ''D1'', description = Some ''Bracket'', created_date = Some (2024, 2, 21),
     quantity = Some 4, unit_price = None, net_value = None\<rparr>"

text \<open>The SKU-analysis row of product P1 bought from supplier S2 at 20, against a best price of 10.\<close>

definition overpaid_sku_row :: sku_row where
  "overpaid_sku_row = \<lparr>sku_department = ''D1'', sku_product_id = ''P1'', sku_description = ''Widget'',
     sku_supplier_id = ''S2'', quantity_purchased = 1, avg_price_paid = Some 20,
     best_available_price = Some 10, cost_above_best_price = Some 10\<rparr>"

text \<open>The SKU-analysis row of the unpriced line item.\<close>

definition unpriced_sku_row :: sku_row where
  "unpriced_sku_row = \<lparr>sku_department = ''D1'', sku_product_id = ''P2'', sku_description = ''Bracket'',
     sku_supplier_id = ''S3'', quantity_purchased = 4, avg_price_paid = None,
     best_available_price = None, cost_above_best_price = None\<rparr>"

text \<open>
  A fully populated line item of department D1, with \<^verbatim>\<open>net_value = quantity * unit_price\<close>.
\<close>

definition line_item :: "string \<Rightarrow> string \<Rightarrow> string \<Rightarrow> string \<Rightarrow> date \<Rightarrow> real \<Rightarrow> real \<Rightarrow> row" where
  "line_item po p d s dt q price =
     \<lparr>purchase_order_id = Some po, product_id = Some p, supplier_id = Some s,
      department = Some ''D1'', description = Some d, created_date = Some dt,
      quantity = Some q, unit_price = Some price, net_value = Some (q * price)\<rparr>"

text \<open>Three single-sourced products with 50%, 30% and 20% of the spend.\<close>

definition pareto_table :: "row list" where
  "pareto_table =
     [line_item ''PO1'' ''A'' ''Pump'' ''S1'' (2024, 1, 10) 1 50,
      line_item ''PO2'' ''B'' ''Valve'' ''S2'' (2024, 1, 11) 1 30,
      line_item ''PO3'' ''C'' ''Seal'' ''S3'' (2024, 1, 12) 1 20]"

text \<open>One single-sourced product with 90% of the spend, another with 10%.\<close>

definition dominant_table :: "row list" where
  "dominant_table =
     [line_item ''PO1'' ''A'' ''Pump'' ''S1'' (2024, 1, 10) 1 90,
      line_item ''PO2'' ''B'' ''Valve'' ''S2'' (2024, 1, 11) 1 10]"

text \<open>A purchase of 10 and a credit note of -5.\<close>

definition credit_table :: "row list" where
  "credit_table =
     [line_item ''PO1'' ''A'' ''Pump'' ''S1'' (2024, 1, 10) 1 10,
      line_item ''PO2'' ''B'' ''Valve'' ''S2'' (2024, 1, 11) (- 1) 5]"

text \<open>
  Product A under two descriptions, each bought from its own supplier, and product B.
\<close>

definition two_description_table :: "row list" where
  "two_description_table =
     [line_item ''PO1'' ''A'' ''Pump'' ''S1'' (2024, 1, 10) 1 40,
      line_item ''PO2'' ''A'' ''Pump v2'' ''S2'' (2024, 1, 11) 1 40,
      line_item ''PO3'' ''B'' ''Valve'' ''S3'' (2024, 1, 12) 1 20]"

definition valve_summary :: summary_row where
  "valve_summary = \<lparr>ss_product_id = ''B'', ss_description = ''Valve'', total_net_value = 30, supplier_count = 1\<rparr>"

definition pump_summary :: summary_row where
  "pump_summary = \<lparr>ss_product_id = ''A'', ss_description = ''Pump'', total_net_value = 90, supplier_count = 1\<rparr>"

definition valve_risk_row :: risk_row where
  "valve_risk_row = \<lparr>risk_product_id = ''B'', risk_description = ''Valve'', risk_supplier_id = Some ''S2'',
     risk_total_net_value = 30\<rparr>"

text \<open>Product P bought at the same price twice.\<close>

definition steady_table :: "row list" where
  "steady_table =
     [line_item ''PO1'' ''P'' ''Hose'' ''S1'' (2024, 1, 10) 1 10,
      line_item ''PO2'' ''P'' ''Hose'' ''S2'' (2024, 2, 10) 3 10]"

text \<open>Product N with the unit prices -1, -2, -3 (credit lines): mean -2, standard deviation 1.\<close>

definition negative_price_table :: "row list" where
  "negative_price_table =
     [line_item ''PO1'' ''N'' ''Rebate'' ''S1'' (2024, 1, 10) 1 (- 1),
      line_item ''PO2'' ''N'' ''Rebate'' ''S1'' (2024, 2, 10) 1 (- 2),
      line_item ''PO3'' ''N'' ''Rebate'' ''S1'' (2024, 3, 10) 1 (- 3)]"

text \<open>Product Z with the unit prices -1, 0, 1: mean 0, standard deviation 1.\<close>

definition zero_mean_table :: "row list" where
  "zero_mean_table =
     [line_item ''PO1'' ''Z'' ''Adjustment'' ''S1'' (2024, 1, 10) 1 (- 1),
      line_item ''PO2'' ''Z'' ''Adjustment'' ''S1'' (2024, 2, 10) 1 0,
      line_item ''PO3'' ''Z'' ''Adjustment'' ''S1'' (2024, 3, 10) 1 1]"

text \<open>The comparison \<^verbatim>\<open>x < 0\<close> on a float; false on NaN.\<close>

fun fneg :: "fval \<Rightarrow> bool" where
  "fneg (Finite x) = (x < 0)"
| "fneg NegInf = True"
| "fneg PosInf = False"
| "fneg NaN = False"

definition steady_vol_row :: vol_row where
  "steady_vol_row = \<lparr>pv_product_id = ''P'', pv_description = ''Hose'', pv_mean = Some 10,
     pv_std = Some 0, pv_cv = Finite 0\<rparr>"

definition zero_mean_vol_row :: vol_row where
  "zero_mean_vol_row = \<lparr>pv_product_id = ''Z'', pv_description = ''Adjustment'', pv_mean = Some 0,
     pv_std = Some 1, pv_cv = PosInf\<rparr>"







section \<open>Auxiliary lemmas on the aggregation primitives\<close>

lemma set_dropna: "set (dropna xs) = {x. Some x \<in> set xs}"
  by (induction xs rule: dropna.induct) auto

lemma dropna_append: "dropna (xs @ ys) = dropna xs @ dropna ys"
  by (induction xs rule: dropna.induct) auto

lemma dropna_empty_iff: "dropna xs = [] \<longleftrightarrow> (\<forall>x\<in>set xs. x = None)"
  by (induction xs rule: dropna.induct) auto

lemma groupby_keys_set: "set (groupby_keys key df) = {k. \<exists>r\<in>set df. key r = Some k}"
  by (force simp: groupby_keys_def set_dropna image_iff)

lemma groupby_keys_distinct: "distinct (groupby_keys key df)"
  by (simp add: groupby_keys_def)

lemma filter_eq_distinct:
  "distinct ks \<Longrightarrow> filter (\<lambda>p. k = p) ks = (if k \<in> set ks then [k] else [])"
  by (induction ks) auto

lemma lookup_group_table:
  assumes "distinct ks"
  shows "filter (\<lambda>(p, v). Some k = Some p) (map (\<lambda>p. (p, h p)) ks) = (if k \<in> set ks then [(k, h k)] else [])"
  using assms by (induction ks) auto

lemma merge_row_present:
  assumes "r \<in> set df" "product_id r = Some p"
  shows "filter (\<lambda>(q, v). product_id r = Some q) (min_price_per_product df)
         = [(p, min_price_observed df (Some p))]"
proof -
  have "p \<in> set (groupby_keys product_id df)"
    using assms by (auto simp: groupby_keys_set)
  then show ?thesis
    using lookup_group_table [OF groupby_keys_distinct, of p _ product_id df]
    by (simp add: min_price_per_product_def assms min_price_observed_def group_rows_def)
qed

lemma merge_row_missing:
  assumes "product_id r = None"
  shows "filter (\<lambda>(q, v). product_id r = Some q) right = []"
  using assms by (induction right) auto

lemma series_sum_append: "series_sum (xs @ ys) = series_sum xs + series_sum ys"
  by (simp add: series_sum_def dropna_append)

lemma saving_rows:
  assumes "set rs \<subseteq> set df"
  shows "series_sum (map (\<lambda>(r, min_price). nmul (nsub (unit_price r) min_price) (quantity r))
           (merge_on_product rs product_id (min_price_per_product df)))
         = series_sum (map (row_overpayment df) rs)"
  using assms
proof (induction rs)
  case Nil
  then show ?case by (simp add: merge_on_product_def)
next
  case (Cons r rs)
  have step: "merge_on_product (r # rs) product_id (min_price_per_product df)
      = map (\<lambda>(p, v). (r, v)) (filter (\<lambda>(p, v). product_id r = Some p) (min_price_per_product df))
        @ merge_on_product rs product_id (min_price_per_product df)"
    by (simp add: merge_on_product_def)
  have head: "series_sum (map (\<lambda>(r, min_price). nmul (nsub (unit_price r) min_price) (quantity r))
       (map (\<lambda>(p, v). (r, v)) (filter (\<lambda>(p, v). product_id r = Some p) (min_price_per_product df))))
      = series_sum [row_overpayment df r]"
  proof (cases "product_id r")
    case None
    then show ?thesis
      by (simp add: merge_row_missing row_overpayment_def min_price_observed_def series_sum_def)
  next
    case (Some p)
    with Cons.prems have "r \<in> set df" by simp
    from merge_row_present [OF this Some] Some show ?thesis
      by (simp add: row_overpayment_def)
  qed
  from Cons have IH: "series_sum (map (\<lambda>(r, min_price). nmul (nsub (unit_price r) min_price) (quantity r))
           (merge_on_product rs product_id (min_price_per_product df)))
         = series_sum (map (row_overpayment df) rs)" by simp
  have "series_sum (map (row_overpayment df) (r # rs))
      = series_sum [row_overpayment df r] + series_sum (map (row_overpayment df) rs)"
    using series_sum_append [of "[row_overpayment df r]" "map (row_overpayment df) rs"] by simp
  then show ?case
    unfolding step map_append series_sum_append head IH by simp
qed

lemma saving_potential_rows: "saving_potential df = series_sum (map (row_overpayment df) df)"
  using saving_rows [of df df] by (simp add: saving_potential_def)

lemma kpis_example: "calculate_kpis [example_p1_10, example_p1_20] =
      [(''Total Spend'', ''$30.00''), (''Potential Savings'', ''$10.00''),
       (''Total Purchase Orders'', ''2''), (''Total Active Suppliers'', ''2''),
       (''Fragmented SKUs'', ''1''), (''Fragmentation Rate (%)'', ''100.00%'')]"
  by code_simp

lemma no_products_no_groups:
  assumes "series_nunique (map product_id df) = 0"
  shows "groupby_keys product_id df = []"
  using assms by (simp add: series_nunique_def groupby_keys_def)

lemma distinct_map_insort_key:
  "distinct (map h (insort_key f x xs)) \<longleftrightarrow> h x \<notin> h ` set xs \<and> distinct (map h xs)"
  by (induction xs) (auto simp: set_insort_key)

lemma distinct_map_sort_key: "distinct (map h (sort_key f xs)) \<longleftrightarrow> distinct (map h xs)"
  by (induction xs) (auto simp: distinct_map_insort_key)

section \<open>KPI Calculator: claims\<close>

text \<open>
  Claim C5. Potential Savings is the sum, over every row of the table, of the row's unit price
  minus the minimum unit price observed for the row's product id, times the row's quantity
  (missing terms are skipped by the sum, as \<^verbatim>\<open>Series.sum\<close> does; a row without product id
  has no such minimum). On the two-row table of product P1 bought at 10 and at 20, quantity 1
  each, from two suppliers, the KPIs are Total Spend $30.00, Potential Savings $10.00,
  Fragmented SKUs 1 and Fragmentation Rate 100.00%.
\<close>

theorem potential_savings_per_row:
  "saving_potential df = series_sum (map (row_overpayment df) df)
   \<and> map_of (calculate_kpis df) ''Potential Savings'' = Some (''$'' @ fmt_fixed2 True (saving_potential df))
   \<and> calculate_kpis [example_p1_10, example_p1_20] =
      [(''Total Spend'', ''$30.00''), (''Potential Savings'', ''$10.00''),
       (''Total Purchase Orders'', ''2''), (''Total Active Suppliers'', ''2''),
       (''Fragmented SKUs'', ''1''), (''Fragmentation Rate (%)'', ''100.00%'')]"
  using saving_potential_rows kpis_example by (simp add: calculate_kpis_def)

text \<open>
  Claim C2. When the table has no distinct product id, the fragmentation rate is the float
  NaN (0 / 0 in numpy's true division, not an exception), and the KPI list is returned with
  the value \<^verbatim>\<open>nan%\<close> in its Fragmentation Rate entry.
\<close>

theorem fragmentation_rate_no_products:
  assumes "series_nunique (map product_id df) = 0"
  shows "fragmentation_rate df = NaN
       \<and> length (calculate_kpis df) = 6
       \<and> calculate_kpis df ! 5 = (''Fragmentation Rate (%)'', ''nan%'')"
proof -
  have f: "fragmented_skus df = 0"
    by (simp add: fragmented_skus_def supplier_counts_def no_products_no_groups [OF assms])
  have r: "fragmentation_rate df = NaN"
    by (simp add: fragmentation_rate_def f assms fdiv_def)
  show ?thesis
    by (simp add: r calculate_kpis_def)
qed

theorem fragmentation_rate_no_products_witness:
  "series_nunique (map product_id [row_without_product]) = 0
   \<and> calculate_kpis [row_without_product] ! 5 = (''Fragmentation Rate (%)'', ''nan%'')"
proof -
  have h: "series_nunique (map product_id [row_without_product]) = 0"
    by (simp add: series_nunique_def row_without_product_def)
  from fragmentation_rate_no_products [OF h] h show ?thesis by simp
qed

section \<open>SKU Analysis View: claims\<close>

lemma merge_on_product_total:
  assumes "distinct ks" "\<forall>l\<in>set left. \<exists>p. pid l = Some p \<and> p \<in> set ks"
  shows "merge_on_product left pid (map (\<lambda>p. (p, h p)) ks) = map (\<lambda>l. (l, h (the (pid l)))) left"
  using assms(2)
proof (induction left)
  case Nil
  then show ?case by (simp add: merge_on_product_def)
next
  case (Cons l left)
  then obtain p where p: "pid l = Some p" "p \<in> set ks" by auto
  have "filter (\<lambda>(q, v). pid l = Some q) (map (\<lambda>p. (p, h p)) ks) = [(p, h p)]"
    using lookup_group_table [OF assms(1), of p h] p by simp
  moreover have "merge_on_product left pid (map (\<lambda>p. (p, h p)) ks) = map (\<lambda>l. (l, h (the (pid l)))) left"
    using Cons by simp
  ultimately show ?case
    using p by (simp add: merge_on_product_def)
qed

lemma key_sku_product: "key_sku r = Some (dp, p, d, s) \<Longrightarrow> product_id r = Some p"
  by (auto simp: key_sku_def split: option.splits)

lemma calculate_sku_analysis_rows:
  "calculate_sku_analysis df = map (sku_row_of_key df) (groupby_keys key_sku df)"
proof -
  let ?pid = "\<lambda>((dp, p, d, s), q, a). Some p :: string option"
  have cover: "\<forall>l\<in>set (sku_groups df). \<exists>p. ?pid l = Some p \<and> p \<in> set (groupby_keys product_id df)"
    by (auto simp: sku_groups_def groupby_keys_set dest: key_sku_product)
  have m: "merge_on_product (sku_groups df) ?pid (min_price_per_product df)
      = map (\<lambda>l. (l, series_min (map unit_price (group_rows product_id df (the (?pid l)))))) (sku_groups df)"
    unfolding min_price_per_product_def
    by (rule merge_on_product_total [OF groupby_keys_distinct cover])
  show ?thesis
    unfolding calculate_sku_analysis_def Let_def m
    by (simp add: sku_groups_def sku_row_of_key_def min_price_observed_def group_rows_def
        split_def Let_def)
qed

lemma sku_key_row_of_key: "sku_key (sku_row_of_key df k) = k"
  by (cases k) (simp add: sku_key_def sku_row_of_key_def Let_def)

lemma sku_analysis_keys: "map sku_key (calculate_sku_analysis df) = groupby_keys key_sku df"
  by (simp add: calculate_sku_analysis_rows sku_key_row_of_key o_def)

lemma min_list_le: "x \<in> set xs \<Longrightarrow> min_list xs \<le> (x::real)"
  using min_list_Min [of xs] by (cases "xs = []") auto

lemma group_price_has_product_min:
  assumes "series_mean (map unit_price (group_rows key_sku df (dp, p, d, s))) = Some a"
  shows "\<exists>b. min_price_observed df (Some p) = Some b
           \<and> (\<forall>x\<in>set (dropna (map unit_price (group_rows key_sku df (dp, p, d, s)))). b \<le> x)"
proof -
  let ?g = "dropna (map unit_price (group_rows key_sku df (dp, p, d, s)))"
  let ?all = "dropna (map unit_price (filter (\<lambda>r. product_id r = Some p) df))"
  have ne: "?g \<noteq> []"
    using assms by (auto simp: series_mean_def Let_def split: if_splits)
  have sub: "set ?g \<subseteq> set ?all"
    by (auto simp: set_dropna group_rows_def dest: key_sku_product)
  then have ne': "?all \<noteq> []" using ne by auto
  have "\<forall>x\<in>set ?g. min_list ?all \<le> x"
    using sub min_list_le by blast
  then show ?thesis
    using ne' by (simp add: min_price_observed_def series_min_def Let_def)
qed

lemma example_analysis:
  "calculate_sku_analysis [example_p1_10, example_p1_20]
   = [\<lparr>sku_department = ''D1'', sku_product_id = ''P1'', sku_description = ''Widget'',
       sku_supplier_id = ''S1'', quantity_purchased = 1, avg_price_paid = Some 10,
       best_available_price = Some 10, cost_above_best_price = Some 0\<rparr>, overpaid_sku_row]"
  by code_simp

text \<open>
  Claim C8, as amended. For every row of the SKU analysis: if the group has no numeric unit
  price, \<open>cost_above_best_price\<close> is the missing value; otherwise the best available price is
  a number, not above any unit price of the group, and \<open>cost_above_best_price\<close> is a number,
  greater than or equal to 0 whenever the summed quantity is not negative and the mean price
  paid is not below the best available price. The mean is not compared with the best price
  here: the code computes it in floating point, where the mean of several prices can round
  below their minimum.
\<close>

theorem cost_above_best_price_sign:
  assumes "r \<in> set (calculate_sku_analysis df)"
  shows "(avg_price_paid r = None \<longrightarrow> cost_above_best_price r = None)
       \<and> (\<forall>a. avg_price_paid r = Some a \<longrightarrow>
            (\<exists>b c. best_available_price r = Some b \<and> cost_above_best_price r = Some c
                 \<and> (\<forall>l\<in>set df. key_sku l = Some (sku_key r) \<longrightarrow> (\<forall>x. unit_price l = Some x \<longrightarrow> b \<le> x))
                 \<and> (0 \<le> quantity_purchased r \<and> b \<le> a \<longrightarrow> 0 \<le> c)))"
proof -
  from assms obtain k where k: "r = sku_row_of_key df k"
    by (auto simp: calculate_sku_analysis_rows)
  obtain dp p d s where kk: "k = (dp, p, d, s)" by (cases k) auto
  let ?q = "series_sum (map quantity (group_rows key_sku df k))"
  let ?a = "series_mean (map unit_price (group_rows key_sku df k))"
  have r: "quantity_purchased r = ?q" "avg_price_paid r = ?a"
      "best_available_price r = min_price_observed df (Some p)"
      "cost_above_best_price r = nmul (nsub ?a (min_price_observed df (Some p))) (Some ?q)"
      "sku_key r = k"
    by (simp_all add: k kk sku_row_of_key_def sku_key_def Let_def)
  show ?thesis
  proof (cases ?a)
    case None
    then show ?thesis by (simp add: r)
  next
    case (Some a)
    from group_price_has_product_min [of df dp p d s a] Some kk
    obtain b where b: "min_price_observed df (Some p) = Some b"
      and low: "\<forall>x\<in>set (dropna (map unit_price (group_rows key_sku df k))). b \<le> x"
      by auto
    have prices: "\<forall>l\<in>set df. key_sku l = Some k \<longrightarrow> (\<forall>x. unit_price l = Some x \<longrightarrow> b \<le> x)"
    proof (intro ballI impI allI)
      fix l x assume "l \<in> set df" "key_sku l = Some k" "unit_price l = Some x"
      then have "Some x \<in> set (map unit_price (group_rows key_sku df k))"
        by (force simp: group_rows_def)
      then have "x \<in> set (dropna (map unit_price (group_rows key_sku df k)))"
        by (simp add: set_dropna)
      with low show "b \<le> x" by blast
    qed
    have sign: "0 \<le> ?q \<and> b \<le> a \<longrightarrow> 0 \<le> (a - b) * ?q" by simp
    show ?thesis
      using prices sign by (simp add: r Some b)
  qed
qed

theorem cost_above_best_price_sign_witness:
  "overpaid_sku_row \<in> set (calculate_sku_analysis [example_p1_10, example_p1_20])
   \<and> avg_price_paid overpaid_sku_row = Some 20
   \<and> best_available_price overpaid_sku_row = Some 10
   \<and> 0 \<le> quantity_purchased overpaid_sku_row \<and> (10::real) \<le> 20
   \<and> (\<exists>c. cost_above_best_price overpaid_sku_row = Some c \<and> 0 \<le> c)"
proof -
  have m: "overpaid_sku_row \<in> set (calculate_sku_analysis [example_p1_10, example_p1_20])"
    by (simp add: example_analysis)
  have f: "0 \<le> quantity_purchased overpaid_sku_row" "avg_price_paid overpaid_sku_row = Some 20"
    "best_available_price overpaid_sku_row = Some 10"
    by (simp_all add: overpaid_sku_row_def)
  from cost_above_best_price_sign [OF m] f
  have "\<exists>c. cost_above_best_price overpaid_sku_row = Some c \<and> 0 \<le> c" by auto
  with m f show ?thesis by simp
qed

text \<open>
  Claim C8 as stated, for every input, fails: a group whose summed quantity is negative has
  a negative cost. Product P1 bought at 10 (quantity 1) and returned at 20 (quantity -1).
\<close>

theorem cost_above_best_price_negative_counterexample:
  "map cost_above_best_price (calculate_sku_analysis [example_p1_10, return_p1_20]) = [Some 0, Some (- 10)]"
  by code_simp

text \<open>
  Claim C4 as stated fails: a row whose grouping key is missing does not form a group, it is
  left out of the grouped result. The table of one line item without department has an
  empty SKU analysis.
\<close>

theorem null_key_row_dropped_counterexample:
  "calculate_sku_analysis [row_without_department] = []"
  by code_simp

lemma key_product_description_iff:
  "key_product_description r = Some (p, d) \<longleftrightarrow> product_id r = Some p \<and> description r = Some d"
  by (auto simp: key_product_description_def split: option.splits)

lemma sku_summary_key_set:
  "set (map (\<lambda>g. (ss_product_id g, ss_description g)) (sku_summary df))
   = set (groupby_keys key_product_description df)"
  by (force simp: sku_summary_def image_iff)

lemma sku_summary_keys_distinct:
  "distinct (map (\<lambda>g. (ss_product_id g, ss_description g)) (sku_summary df))"
proof -
  have "distinct (map (\<lambda>g. (ss_product_id g, ss_description g))
      (map (\<lambda>(p, d). \<lparr>ss_product_id = p, ss_description = d,
                total_net_value = series_sum (map net_value (group_rows key_product_description df (p, d))),
                supplier_count = series_nunique (map supplier_id (group_rows key_product_description df (p, d)))\<rparr>)
          (groupby_keys key_product_description df)))"
    by (simp add: o_def split_def groupby_keys_distinct)
  then show ?thesis
    unfolding sku_summary_def by (simp only: distinct_map_sort_key)
qed

text \<open>
  Claim C4, as amended. The grouped tables have exactly one row per distinct combination of
  non-missing key values occurring in a row of the table: (department, product id,
  description, supplier id) for the SKU analysis, (product id, description) for the risk
  summary. Rows with a missing value in one of the key columns belong to no group.
\<close>

theorem groups_are_non_null_keys:
  "distinct (map sku_key (calculate_sku_analysis df))
   \<and> set (map sku_key (calculate_sku_analysis df))
       = {(dp, p, d, s). \<exists>r\<in>set df. department r = Some dp \<and> product_id r = Some p
                                   \<and> description r = Some d \<and> supplier_id r = Some s}
   \<and> distinct (map (\<lambda>g. (ss_product_id g, ss_description g)) (sku_summary df))
   \<and> set (map (\<lambda>g. (ss_product_id g, ss_description g)) (sku_summary df))
       = {(p, d). \<exists>r\<in>set df. product_id r = Some p \<and> description r = Some d}"
proof -
  have "key_sku r = Some (dp, p, d, s) \<longleftrightarrow>
        department r = Some dp \<and> product_id r = Some p \<and> description r = Some d \<and> supplier_id r = Some s"
    for r dp p d s
    by (auto simp: key_sku_def split: option.splits)
  then have a: "set (map sku_key (calculate_sku_analysis df))
       = {(dp, p, d, s). \<exists>r\<in>set df. department r = Some dp \<and> product_id r = Some p
                                   \<and> description r = Some d \<and> supplier_id r = Some s}"
    unfolding sku_analysis_keys by (auto simp: groupby_keys_set)
  have b: "set (map (\<lambda>g. (ss_product_id g, ss_description g)) (sku_summary df))
       = {(p, d). \<exists>r\<in>set df. product_id r = Some p \<and> description r = Some d}"
    unfolding sku_summary_key_set by (auto simp: groupby_keys_set key_product_description_iff)
  show ?thesis
    using a b sku_summary_keys_distinct [of df]
    by (simp only: sku_analysis_keys groupby_keys_distinct)
qed

lemma filter_sku_analysis_default:
  "is_empty_filter deps \<Longrightarrow> is_empty_filter sups \<Longrightarrow> filter_sku_analysis t deps sups 0 = t"
  by (simp add: filter_sku_analysis_def)

lemma filter_sku_analysis_active:
  assumes "\<not> (is_empty_filter deps \<and> is_empty_filter sups \<and> c = 0)"
  shows "set (filter_sku_analysis t deps sups c)
         \<subseteq> {r \<in> set t. nge (cost_above_best_price r) c}"
  using assms by (auto simp: filter_sku_analysis_def Let_def)

text \<open>
  Claim C10. Let a SKU-analysis table hold a row whose cost is missing. With both membership
  filters empty and threshold 0 the filter returns that row; with a non-empty department or
  supplier filter, and threshold 0, the row is omitted, whether or not the filter matches
  it, and no row with a missing cost is left, since the threshold comparison is then applied
  and is false on a missing cost.
\<close>

theorem membership_filter_drops_missing_cost:
  assumes "r \<in> set t" and "cost_above_best_price r = None"
  shows "(is_empty_filter deps \<and> is_empty_filter sups \<longrightarrow>
            r \<in> set (filter_sku_analysis t deps sups 0))
       \<and> (\<not> (is_empty_filter deps \<and> is_empty_filter sups) \<longrightarrow>
            r \<notin> set (filter_sku_analysis t deps sups 0)
            \<and> (\<forall>r'\<in>set (filter_sku_analysis t deps sups 0). cost_above_best_price r' \<noteq> None))"
proof (intro conjI impI)
  assume "is_empty_filter deps \<and> is_empty_filter sups"
  then show "r \<in> set (filter_sku_analysis t deps sups 0)"
    using assms(1) by (simp add: filter_sku_analysis_default)
next
  assume a: "\<not> (is_empty_filter deps \<and> is_empty_filter sups)"
  then have sub: "set (filter_sku_analysis t deps sups 0) \<subseteq> {r \<in> set t. nge (cost_above_best_price r) 0}"
    using filter_sku_analysis_active [of deps sups 0 t] by blast
  show "r \<notin> set (filter_sku_analysis t deps sups 0)"
    using sub assms(2) by auto
  show "\<forall>r'\<in>set (filter_sku_analysis t deps sups 0). cost_above_best_price r' \<noteq> None"
  proof
    fix r' assume "r' \<in> set (filter_sku_analysis t deps sups 0)"
    then have "nge (cost_above_best_price r') 0" using sub by auto
    then show "cost_above_best_price r' \<noteq> None" by (cases "cost_above_best_price r'") auto
  qed
qed

lemma unpriced_analysis:
  "calculate_sku_analysis [example_p1_10, unpriced_p2]
   = [\<lparr>sku_department = ''D1'', sku_product_id = ''P1'', sku_description = ''Widget'',
       sku_supplier_id = ''S1'', quantity_purchased = 1, avg_price_paid = Some 10,
       best_available_price = Some 10, cost_above_best_price = Some 0\<rparr>, unpriced_sku_row]"
  by code_simp

theorem membership_filter_drops_missing_cost_witness:
  "unpriced_sku_row \<in> set (calculate_sku_analysis [example_p1_10, unpriced_p2])
   \<and> cost_above_best_price unpriced_sku_row = None
   \<and> unpriced_sku_row \<in> set (filter_sku_analysis (calculate_sku_analysis [example_p1_10, unpriced_p2]) None None 0)
   \<and> unpriced_sku_row \<notin> set (filter_sku_analysis (calculate_sku_analysis [example_p1_10, unpriced_p2]) (Some [''D1'']) None 0)
   \<and> unpriced_sku_row \<notin> set (filter_sku_analysis (calculate_sku_analysis [example_p1_10, unpriced_p2]) None (Some [''S3'']) 0)"
proof -
  have m: "unpriced_sku_row \<in> set (calculate_sku_analysis [example_p1_10, unpriced_p2])"
    by (simp add: unpriced_analysis)
  have c: "cost_above_best_price unpriced_sku_row = None"
    by (simp add: unpriced_sku_row_def)
  have e: "is_empty_filter None" "\<not> is_empty_filter (Some [''D1''])" "\<not> is_empty_filter (Some [''S3''])"
    by (simp_all add: is_empty_filter_def)
  from membership_filter_drops_missing_cost [OF m c, of None None]
       membership_filter_drops_missing_cost [OF m c, of "Some [''D1'']" None]
       membership_filter_drops_missing_cost [OF m c, of None "Some [''S3'']"]
       m c e
  show ?thesis by simp
qed

section \<open>Risk Analyzer: claims\<close>

lemma cumsum_from_lower:
  "\<forall>x\<in>set xs. 0 \<le> x \<Longrightarrow> c \<in> set (cumsum_from acc xs) \<Longrightarrow> acc \<le> c"
proof (induction xs arbitrary: acc)
  case Nil
  then show ?case by simp
next
  case (Cons x xs)
  from Cons.prems have "c = acc + x \<or> c \<in> set (cumsum_from (acc + x) xs)" by simp
  then show ?case
  proof
    assume "c = acc + x" with Cons.prems show ?thesis by simp
  next
    assume "c \<in> set (cumsum_from (acc + x) xs)"
    with Cons.IH [of "acc + x"] Cons.prems have "acc + x \<le> c" by simp
    with Cons.prems show ?thesis by simp
  qed
qed

lemma cumsum_from_sorted: "\<forall>x\<in>set xs. 0 \<le> x \<Longrightarrow> sorted (cumsum_from acc xs)"
proof (induction xs arbitrary: acc)
  case Nil
  then show ?case by simp
next
  case (Cons x xs)
  then show ?case using cumsum_from_lower [of xs _ "acc + x"] by auto
qed

lemma cumsum_from_length: "length (cumsum_from acc xs) = length xs"
  by (induction xs arbitrary: acc) auto

lemma cumsum_from_empty_iff: "cumsum_from acc xs = [] \<longleftrightarrow> xs = []"
  by (cases xs) auto

lemma cumsum_from_last: "xs \<noteq> [] \<Longrightarrow> last (cumsum_from acc xs) = acc + sum_list xs"
proof (induction xs arbitrary: acc)
  case Nil
  then show ?case by simp
next
  case (Cons x xs)
  then show ?case
    by (cases "xs = []") (simp_all add: cumsum_from_empty_iff add.assoc)
qed

lemma cumsum_from_first:
  "\<forall>x\<in>set xs. 0 \<le> x \<Longrightarrow> c \<in> set (cumsum_from acc xs) \<Longrightarrow> acc + hd xs \<le> c"
proof (cases xs)
  case Nil
  assume "c \<in> set (cumsum_from acc xs)" with Nil show ?thesis by simp
next
  case (Cons x ys)
  assume a: "\<forall>x\<in>set xs. 0 \<le> x" "c \<in> set (cumsum_from acc xs)"
  then have "c = acc + x \<or> c \<in> set (cumsum_from (acc + x) ys)" using Cons by simp
  then show ?thesis
    using cumsum_from_lower [of ys c "acc + x"] a(1) Cons by auto
qed

lemma set_sku_summary:
  "set (sku_summary df) =
     (\<lambda>(p, d). \<lparr>ss_product_id = p, ss_description = d,
                total_net_value = series_sum (map net_value (group_rows key_product_description df (p, d))),
                supplier_count = series_nunique (map supplier_id (group_rows key_product_description df (p, d)))\<rparr>)
       ` set (groupby_keys key_product_description df)"
  by (simp add: sku_summary_def)

lemma series_sum_nonneg: "\<forall>x\<in>set xs. \<forall>v. x = Some v \<longrightarrow> 0 \<le> v \<Longrightarrow> 0 \<le> series_sum xs"
  unfolding series_sum_def by (rule sum_list_nonneg) (auto simp: set_dropna)

lemma sku_summary_totals_nonneg:
  assumes "\<forall>r\<in>set df. \<forall>v. net_value r = Some v \<longrightarrow> 0 \<le> v"
  shows "\<forall>x\<in>set (map total_net_value (sku_summary df)). 0 \<le> x"
proof -
  have "0 \<le> series_sum (map net_value (group_rows key_product_description df k))" for k
    by (rule series_sum_nonneg) (use assms in \<open>auto simp: group_rows_def\<close>)
  then show ?thesis by (auto simp: set_sku_summary)
qed

lemma sku_summary_descending:
  "sorted (map (\<lambda>g. - total_net_value g) (sku_summary df))"
  by (simp add: sku_summary_def)

lemma sorted_hd_least: "sorted (map f s) \<Longrightarrow> g \<in> set s \<Longrightarrow> f (hd s) \<le> (f g :: real)"
  by (cases s) auto

lemma cum_spend_pct_finite:
  assumes "sum_list (map total_net_value s) \<noteq> 0"
  shows "cum_spend_pct s
         = map Finite (map (\<lambda>c. c / sum_list (map total_net_value s) * 100) (cumsum (map total_net_value s)))"
  using assms by (simp add: cum_spend_pct_def fdiv_def)

lemma sum_list_insort_key:
  "sum_list (map f (insort_key g x xs)) = f x + sum_list (map f xs)" for f :: "'a \<Rightarrow> real"
  by (induction xs) auto

lemma sum_list_sort_key:
  "sum_list (map f (sort_key g xs)) = sum_list (map f xs)" for f :: "'a \<Rightarrow> real"
  by (induction xs) (auto simp: sum_list_insort_key)

lemma sku_summary_total:
  "sum_list (map total_net_value (sku_summary df))
   = sum_list (map (\<lambda>k. series_sum (map net_value (group_rows key_product_description df k)))
       (groupby_keys key_product_description df))"
  by (simp add: sku_summary_def sum_list_sort_key o_def split_def)

lemma series_sum_Cons: "series_sum (x # xs) = series_sum [x] + series_sum xs"
  by (cases x) (simp_all add: series_sum_def)

lemma group_sum_step:
  assumes "distinct ks"
  shows "sum_list (map (\<lambda>k. series_sum (map net_value (group_rows key (r # df) k))) ks)
         = sum_list (map (\<lambda>k. series_sum (map net_value (group_rows key df k))) ks)
           + (if \<exists>k\<in>set ks. key r = Some k then series_sum [net_value r] else 0)"
  using assms
proof (induction ks)
  case Nil
  then show ?case by simp
next
  case (Cons k ks)
  have head: "series_sum (map net_value (group_rows key (r # df) k))
      = series_sum (map net_value (group_rows key df k))
        + (if key r = Some k then series_sum [net_value r] else 0)"
    using series_sum_Cons [of "net_value r" "map net_value (group_rows key df k)"]
    by (simp add: group_rows_def)
  show ?case
  proof (cases "key r = Some k")
    case True
    with Cons.prems have "\<not> (\<exists>k'\<in>set ks. key r = Some k')" by auto
    with Cons True head show ?thesis by simp
  next
    case False
    with Cons head show ?thesis by simp
  qed
qed

lemma grouped_sum_le_total:
  assumes "\<forall>r\<in>set df. \<forall>v. net_value r = Some v \<longrightarrow> 0 \<le> v" and "distinct ks"
  shows "sum_list (map (\<lambda>k. series_sum (map net_value (group_rows key df k))) ks)
         \<le> series_sum (map net_value df)"
  using assms(1)
proof (induction df)
  case Nil
  then show ?case by (simp add: group_rows_def series_sum_def)
next
  case (Cons r df)
  have "0 \<le> series_sum [net_value r]"
    by (rule series_sum_nonneg) (use Cons.prems in auto)
  moreover have "series_sum (map net_value (r # df)) = series_sum [net_value r] + series_sum (map net_value df)"
    using series_sum_Cons [of "net_value r" "map net_value df"] by simp
  moreover have "sum_list (map (\<lambda>k. series_sum (map net_value (group_rows key df k))) ks)
         \<le> series_sum (map net_value df)"
    using Cons by simp
  ultimately show ?case
    unfolding group_sum_step [OF assms(2)] by (simp split: if_splits)
qed

lemma sku_summary_total_le:
  assumes "\<forall>r\<in>set df. \<forall>v. net_value r = Some v \<longrightarrow> 0 \<le> v"
  shows "sum_list (map total_net_value (sku_summary df)) \<le> series_sum (map net_value df)"
  unfolding sku_summary_total by (rule grouped_sum_le_total [OF assms groupby_keys_distinct])

lemma summary_row_of_group:
  assumes "r \<in> set df" and "product_id r = Some p" and "description r = Some d"
  shows "\<lparr>ss_product_id = p, ss_description = d,
          total_net_value = series_sum (map net_value (group_rows key_product_description df (p, d))),
          supplier_count = series_nunique (map supplier_id (group_rows key_product_description df (p, d)))\<rparr>
         \<in> set (sku_summary df)"
proof -
  have "key_product_description r = Some (p, d)"
    using assms by (simp add: key_product_description_iff)
  then have "(p, d) \<in> set (groupby_keys key_product_description df)"
    using assms(1) by (auto simp: groupby_keys_set)
  then show ?thesis by (force simp: set_sku_summary)
qed

lemma member_le_series_sum:
  assumes "\<forall>x\<in>set xs. \<forall>v. x = Some v \<longrightarrow> 0 \<le> v" and "Some v \<in> set xs"
  shows "v \<le> series_sum xs"
  unfolding series_sum_def
  by (rule member_le_sum_list) (use assms in \<open>auto simp: set_dropna\<close>)

lemma positive_row_positive_total:
  assumes nonneg: "\<forall>r\<in>set df. \<forall>v. net_value r = Some v \<longrightarrow> 0 \<le> v"
    and r: "r \<in> set df" "product_id r = Some p" "description r = Some d" "net_value r = Some v" "0 < v"
  shows "0 < sum_list (map total_net_value (sku_summary df))"
proof -
  let ?t = "series_sum (map net_value (group_rows key_product_description df (p, d)))"
  have "Some v \<in> set (map net_value (group_rows key_product_description df (p, d)))"
    using r by (force simp: group_rows_def key_product_description_iff)
  then have "v \<le> ?t"
    by (intro member_le_series_sum) (use nonneg in \<open>auto simp: group_rows_def\<close>)
  moreover have "?t \<in> set (map total_net_value (sku_summary df))"
    using summary_row_of_group [OF r(1,2,3)] by force
  then have "?t \<le> sum_list (map total_net_value (sku_summary df))"
    using sku_summary_totals_nonneg [OF nonneg] by (intro member_le_sum_list) auto
  ultimately show ?thesis using r(5) by simp
qed

lemma critical_group_single_supplier:
  assumes "g \<in> set (critical_single_sourced_skus df)"
  shows "series_nunique (map supplier_id
           (filter (\<lambda>r. product_id r = Some (ss_product_id g) \<and> description r = Some (ss_description g)) df)) = 1"
proof -
  from assms have g: "g \<in> set (sku_summary df)" and c: "supplier_count g = 1"
    by (simp_all add: critical_single_sourced_skus_def Let_def)
  from g obtain p d where
    "supplier_count g = series_nunique (map supplier_id (group_rows key_product_description df (p, d)))"
    "ss_product_id g = p" "ss_description g = d"
    by (auto simp: set_sku_summary)
  with c show ?thesis
    by (simp add: group_rows_def key_product_description_iff)
qed

lemma cum_spend_pct_monotone:
  assumes nonneg: "\<forall>r\<in>set df. \<forall>v. net_value r = Some v \<longrightarrow> 0 \<le> v"
    and pos: "0 < sum_list (map total_net_value (sku_summary df))"
  shows "\<exists>ps. cum_spend_pct (sku_summary df) = map Finite ps \<and> sorted ps \<and> last ps = 100"
proof -
  let ?ts = "map total_net_value (sku_summary df)"
  let ?T = "sum_list ?ts"
  let ?ps = "map (\<lambda>c. c / ?T * 100) (cumsum ?ts)"
  have ts: "\<forall>x\<in>set ?ts. 0 \<le> x" by (rule sku_summary_totals_nonneg [OF nonneg])
  have ne: "?ts \<noteq> []" using pos by auto
  have mono: "mono (\<lambda>c. c / ?T * 100)"
    using pos by (auto simp: mono_def divide_right_mono)
  have "sorted (cumsum ?ts)" unfolding cumsum_def by (rule cumsum_from_sorted [OF ts])
  then have s: "sorted ?ps" using mono by (simp add: sorted_map mono_def sorted_wrt_iff_nth_less)
  have cne: "cumsum ?ts \<noteq> []" using ne cumsum_from_length [of 0 ?ts] unfolding cumsum_def by fastforce
  have "last ?ps = last (cumsum ?ts) / ?T * 100" using cne by (simp add: last_map)
  also have "\<dots> = 100" using pos cumsum_from_last [OF ne, of 0] by (simp add: cumsum_def)
  finally have l: "last ?ps = 100" .
  have "cum_spend_pct (sku_summary df) = map Finite ?ps"
    using pos by (intro cum_spend_pct_finite) simp
  with s l show ?thesis by blast
qed

text \<open>
  Claim C7, as amended. For every table without negative net value that has a row with a
  product id, a description and a positive net value, the cumulative-spend percentages of
  the (product id, description) groups sorted by spend descending are finite,
  non-decreasing and end at 100. For every table, every group flagged critical has exactly
  one distinct supplier among the rows of that product id and description; the supplier
  count is per group, not per product id.
\<close>

theorem cum_spend_pct_nondecreasing_to_100:
  "((\<forall>r\<in>set df. \<forall>v. net_value r = Some v \<longrightarrow> 0 \<le> v)
      \<and> (\<exists>r\<in>set df. \<exists>p d v. product_id r = Some p \<and> description r = Some d
                               \<and> net_value r = Some v \<and> 0 < v)
     \<longrightarrow> (\<exists>ps. cum_spend_pct (sku_summary df) = map Finite ps \<and> sorted ps \<and> last ps = 100))
   \<and> (\<forall>g\<in>set (critical_single_sourced_skus df).
         series_nunique (map supplier_id
           (filter (\<lambda>r. product_id r = Some (ss_product_id g) \<and> description r = Some (ss_description g)) df)) = 1)"
proof (intro conjI impI ballI)
  assume a: "(\<forall>r\<in>set df. \<forall>v. net_value r = Some v \<longrightarrow> 0 \<le> v)
      \<and> (\<exists>r\<in>set df. \<exists>p d v. product_id r = Some p \<and> description r = Some d
                               \<and> net_value r = Some v \<and> 0 < v)"
  then have nonneg: "\<forall>r\<in>set df. \<forall>v. net_value r = Some v \<longrightarrow> 0 \<le> v" by blast
  from a obtain r p d v where "r \<in> set df" "product_id r = Some p" "description r = Some d"
    "net_value r = Some v" "0 < v" by blast
  then have "0 < sum_list (map total_net_value (sku_summary df))"
    by (rule positive_row_positive_total [OF nonneg])
  then show "\<exists>ps. cum_spend_pct (sku_summary df) = map Finite ps \<and> sorted ps \<and> last ps = 100"
    by (rule cum_spend_pct_monotone [OF nonneg])
next
  fix g assume "g \<in> set (critical_single_sourced_skus df)"
  then show "series_nunique (map supplier_id
           (filter (\<lambda>r. product_id r = Some (ss_product_id g) \<and> description r = Some (ss_description g)) df)) = 1"
    by (rule critical_group_single_supplier)
qed

lemma pareto_summary:
  "sku_summary pareto_table =
     [\<lparr>ss_product_id = ''A'', ss_description = ''Pump'', total_net_value = 50, supplier_count = 1\<rparr>,
      valve_summary,
      \<lparr>ss_product_id = ''C'', ss_description = ''Seal'', total_net_value = 20, supplier_count = 1\<rparr>]"
  by code_simp

lemma pareto_pct: "cum_spend_pct (sku_summary pareto_table) = [Finite 50, Finite 80, Finite 100]"
  by code_simp

lemma pareto_critical: "valve_summary \<in> set (critical_single_sourced_skus pareto_table)"
  by code_simp

lemma line_item_net_value: "net_value (line_item po p d s dt q price) = Some (q * price)"
  by (simp add: line_item_def)

lemma pareto_valve_suppliers:
  "series_nunique (map supplier_id
     (filter (\<lambda>r. product_id r = Some ''B'' \<and> description r = Some ''Valve'') pareto_table)) = 1"
  by code_simp

theorem cum_spend_pct_nondecreasing_to_100_witness:
  "net_value (line_item ''PO1'' ''A'' ''Pump'' ''S1'' (2024, 1, 10) 1 50) = Some 50 \<and> (0::real) < 50
   \<and> cum_spend_pct (sku_summary pareto_table) = map Finite [50, 80, 100]
   \<and> sorted [50, 80, 100 :: real] \<and> last [50, 80, 100 :: real] = 100
   \<and> valve_summary \<in> set (critical_single_sourced_skus pareto_table)
   \<and> series_nunique (map supplier_id (group_rows key_product_description pareto_table (''B'', ''Valve''))) = 1"
proof -
  have nonneg: "\<forall>r\<in>set pareto_table. \<forall>v. net_value r = Some v \<longrightarrow> 0 \<le> v"
    by (auto simp: pareto_table_def line_item_net_value)
  have pos: "\<exists>r\<in>set pareto_table. \<exists>p d v. product_id r = Some p \<and> description r = Some d
                               \<and> net_value r = Some v \<and> 0 < v"
    by (rule bexI [of _ "line_item ''PO1'' ''A'' ''Pump'' ''S1'' (2024, 1, 10) 1 50"])
       (simp_all add: pareto_table_def line_item_def)
  have v: "ss_product_id valve_summary = ''B''" "ss_description valve_summary = ''Valve''"
    by (simp_all add: valve_summary_def)
  from cum_spend_pct_nondecreasing_to_100 [of pareto_table] pareto_critical v
  have one: "series_nunique (map supplier_id
     (filter (\<lambda>r. product_id r = Some ''B'' \<and> description r = Some ''Valve'') pareto_table)) = 1"
    by fastforce
  from cum_spend_pct_nondecreasing_to_100 [of pareto_table] nonneg pos
  have "\<exists>ps. cum_spend_pct (sku_summary pareto_table) = map Finite ps \<and> sorted ps \<and> last ps = 100"
    by blast
  with one pareto_pct pareto_critical show ?thesis
    by (simp add: line_item_net_value group_rows_def key_product_description_iff)
qed

text \<open>
  Claim C7 as stated, for every input table, fails. With a credit note of -5 after a purchase
  of 10 the total is 5 and the percentages run 200, 100, which is a decrease. And product A
  of the table with two descriptions is flagged twice, once per description, while it has
  two distinct suppliers.
\<close>

theorem cum_spend_pct_decreasing_counterexample:
  "cum_spend_pct (sku_summary credit_table) = [Finite 200, Finite 100]
   \<and> map ss_product_id (critical_single_sourced_skus two_description_table) = [''A'', ''A'']
   \<and> series_nunique (map supplier_id (group_rows product_id two_description_table ''A'')) = 2"
  by code_simp

lemma top_spend_skus_empty:
  assumes "\<forall>pct\<in>set (cum_spend_pct s). \<not> fle pct 80"
  shows "top_spend_skus s = []"
proof -
  have "filter (\<lambda>(g, pct). fle pct 80) (zip s (cum_spend_pct s)) = []"
    using assms by (auto simp: filter_empty_conv dest: set_zip_rightD)
  then show ?thesis by (simp add: top_spend_skus_def)
qed

lemma dominant_share_empties_top:
  assumes nonneg: "\<forall>r\<in>set df. \<forall>v. net_value r = Some v \<longrightarrow> 0 \<le> v"
    and g: "g \<in> set (sku_summary df)"
    and share: "total_net_value g * 100 > 80 * sum_list (map total_net_value (sku_summary df))"
  shows "top_spend_skus (sku_summary df) = []"
proof (rule top_spend_skus_empty, rule ballI)
  fix pct assume pct: "pct \<in> set (cum_spend_pct (sku_summary df))"
  let ?s = "sku_summary df"
  let ?ts = "map total_net_value ?s"
  let ?T = "sum_list ?ts"
  have ts: "\<forall>x\<in>set ?ts. 0 \<le> x" by (rule sku_summary_totals_nonneg [OF nonneg])
  have "total_net_value g \<in> set ?ts" using g by simp
  then have gT: "total_net_value g \<le> ?T" using ts by (intro member_le_sum_list) auto
  have T0: "0 \<le> ?T" using ts by (intro sum_list_nonneg) auto
  have pos: "0 < ?T"
  proof (rule ccontr)
    assume "\<not> 0 < ?T"
    with T0 have "?T = 0" by simp
    with gT share show False by simp
  qed
  have "- total_net_value (hd ?s) \<le> - total_net_value g"
    by (rule sorted_hd_least [OF sku_summary_descending g])
  moreover have "hd ?ts = total_net_value (hd ?s)" using g by (cases ?s) auto
  ultimately have hd: "total_net_value g \<le> hd ?ts" by simp
  from pct obtain c where c: "c \<in> set (cumsum ?ts)" and p: "pct = fscale (fdiv c ?T) 100"
    by (auto simp: cum_spend_pct_def)
  have "0 + hd ?ts \<le> c"
    using c unfolding cumsum_def by (rule cumsum_from_first [OF ts])
  with hd have "total_net_value g \<le> c" by simp
  with share have "80 * ?T < c * 100" by simp
  then have "80 < c / ?T * 100" using pos by (simp add: pos_less_divide_eq mult.commute)
  then show "\<not> fle pct 80" using pos by (simp add: p fdiv_def)
qed

lemma dominant_share_no_critical:
  assumes "\<forall>r\<in>set df. \<forall>v. net_value r = Some v \<longrightarrow> 0 \<le> v"
    and "g \<in> set (sku_summary df)"
    and "total_net_value g * 100 > 80 * sum_list (map total_net_value (sku_summary df))"
  shows "calculate_critical_suppliers df = []"
  using dominant_share_empties_top [OF assms]
  by (simp add: calculate_critical_suppliers_def critical_single_sourced_skus_def Let_def)

lemma key_product_description_product:
  "key_product_description r = Some (p, d) \<Longrightarrow> product_id r = Some p"
  by (auto simp: key_product_description_def split: option.splits)

lemma set_drop_duplicates: "set (drop_duplicates xs) = set xs"
  by (simp add: drop_duplicates_def)

lemma summary_product_has_supplier_info:
  assumes "h \<in> set (sku_summary df)"
  shows "\<exists>s. (Some (ss_product_id h), s) \<in> set (supplier_info df)"
proof -
  from assms obtain p d where k: "(p, d) \<in> set (groupby_keys key_product_description df)"
    and h: "ss_product_id h = p"
    by (auto simp: set_sku_summary)
  from k obtain r where r: "r \<in> set df" "key_product_description r = Some (p, d)"
    by (auto simp: groupby_keys_set)
  then have "(Some p, supplier_id r) \<in> set (supplier_info df)"
    by (force simp: supplier_info_def set_drop_duplicates dest: key_product_description_product)
  with h show ?thesis by blast
qed

lemma within_cut_is_listed:
  assumes z: "(h, pct) \<in> set (zip (sku_summary df) (cum_spend_pct (sku_summary df)))"
    and cut: "fle pct 80" and single: "supplier_count h = 1"
  shows "\<exists>r\<in>set (calculate_critical_suppliers df).
           risk_product_id r = ss_product_id h \<and> risk_description r = ss_description h
           \<and> risk_total_net_value r = total_net_value h"
proof -
  have hs: "h \<in> set (sku_summary df)" using z by (rule set_zip_leftD)
  have "ss_product_id h \<in> set (top_spend_skus (sku_summary df))"
    using z cut by (force simp: top_spend_skus_def)
  then have crit: "h \<in> set (critical_single_sourced_skus df)"
    using hs single by (simp add: critical_single_sourced_skus_def Let_def)
  from summary_product_has_supplier_info [OF hs]
  obtain s where s: "(Some (ss_product_id h), s) \<in> set (supplier_info df)" by blast
  let ?r = "\<lparr>risk_product_id = ss_product_id h, risk_description = ss_description h,
             risk_supplier_id = s, risk_total_net_value = total_net_value h\<rparr>"
  have "?r \<in> set (calculate_critical_suppliers df)"
    using crit s by (force simp: calculate_critical_suppliers_def Let_def)
  then show ?thesis by (intro bexI [of _ ?r]) simp_all
qed

lemma dominant_product_no_critical:
  assumes nonneg: "\<forall>r\<in>set df. \<forall>v. net_value r = Some v \<longrightarrow> 0 \<le> v"
    and one_description: "\<forall>r\<in>set df. product_id r = Some p \<longrightarrow> description r = Some d"
    and share: "series_sum (map net_value (group_rows product_id df p)) * 100
                > 80 * series_sum (map net_value df)"
  shows "calculate_critical_suppliers df = []"
proof -
  let ?spend = "series_sum (map net_value (group_rows product_id df p))"
  have same: "group_rows key_product_description df (p, d) = group_rows product_id df p"
    unfolding group_rows_def
    by (rule filter_cong) (use one_description in \<open>auto simp: key_product_description_iff\<close>)
  have "0 \<le> series_sum (map net_value df)"
    by (rule series_sum_nonneg) (use nonneg in auto)
  with share have "0 < ?spend" by simp
  then have "dropna (map net_value (group_rows product_id df p)) \<noteq> []"
    by (auto simp: series_sum_def)
  then have "group_rows product_id df p \<noteq> []" by auto
  then obtain r where "r \<in> set (group_rows product_id df p)"
    by (cases "group_rows product_id df p") auto
  then have r: "r \<in> set df" "product_id r = Some p"
    by (simp_all add: group_rows_def)
  then have rd: "description r = Some d" using one_description by simp
  let ?g = "\<lparr>ss_product_id = p, ss_description = d,
          total_net_value = series_sum (map net_value (group_rows key_product_description df (p, d))),
          supplier_count = series_nunique (map supplier_id (group_rows key_product_description df (p, d)))\<rparr>"
  have g: "?g \<in> set (sku_summary df)"
    by (rule summary_row_of_group [OF r rd])
  have "80 * sum_list (map total_net_value (sku_summary df)) \<le> 80 * series_sum (map net_value df)"
    using sku_summary_total_le [OF nonneg] by simp
  with share have "total_net_value ?g * 100 > 80 * sum_list (map total_net_value (sku_summary df))"
    by (simp add: same)
  with nonneg g show ?thesis by (rule dominant_share_no_critical)
qed

text \<open>
  Claim C1, as amended. The top-spend cut keeps the groups whose cumulative percentage, in
  descending order of spend, is at most 80, and the cumulative percentage of the first group
  is its own share. So, in a table without negative net value where all rows of a product
  carry one same description, when that product accounts for more than 80% of the total
  spend (90% for instance), no cumulative percentage is at most 80 and
  \<^verbatim>\<open>calculate_critical_suppliers\<close> returns no row at all: the product is not in its output.
  A (product id, description) group with exactly one distinct supplier whose computed
  cumulative percentage is at most 80, equality included, is in the output.
\<close>

theorem critical_suppliers_cumulative_cut:
  "((\<forall>r\<in>set df. \<forall>v. net_value r = Some v \<longrightarrow> 0 \<le> v)
      \<and> (\<forall>r\<in>set df. product_id r = Some p \<longrightarrow> description r = Some d)
      \<and> series_sum (map net_value (group_rows product_id df p)) * 100
          > 80 * series_sum (map net_value df)
     \<longrightarrow> calculate_critical_suppliers df = [])
   \<and> ((h, pct) \<in> set (zip (sku_summary df) (cum_spend_pct (sku_summary df)))
      \<and> fle pct 80 \<and> supplier_count h = 1
     \<longrightarrow> (\<exists>r\<in>set (calculate_critical_suppliers df).
            risk_product_id r = ss_product_id h \<and> risk_description r = ss_description h
            \<and> risk_total_net_value r = total_net_value h))"
  using dominant_product_no_critical [of df p d] within_cut_is_listed [of h pct df] by blast

lemma dominant_summary:
  "sku_summary dominant_table =
     [pump_summary,
      \<lparr>ss_product_id = ''B'', ss_description = ''Valve'', total_net_value = 10, supplier_count = 1\<rparr>]"
  by code_simp

lemma pareto_output:
  "calculate_critical_suppliers pareto_table =
     [\<lparr>risk_product_id = ''A'', risk_description = ''Pump'', risk_supplier_id = Some ''S1'',
       risk_total_net_value = 50\<rparr>, valve_risk_row]"
  by code_simp

lemma dominant_spend:
  "series_sum (map net_value (group_rows product_id dominant_table ''A'')) = 90"
  "series_sum (map net_value dominant_table) = 100"
  by code_simp+

text \<open>
  The theorem at the table with a 90% product, and at the table with the shares 50, 30, 20,
  where the second group sits on the boundary: 80 of 100 is exactly 80 in float64 as well.
\<close>

theorem critical_suppliers_cumulative_cut_witness:
  "series_sum (map net_value (group_rows product_id dominant_table ''A'')) * 100
     > 80 * series_sum (map net_value dominant_table)
   \<and> calculate_critical_suppliers dominant_table = []
   \<and> (valve_summary, Finite 80) \<in> set (zip (sku_summary pareto_table) (cum_spend_pct (sku_summary pareto_table)))
   \<and> fle (Finite 80) 80 \<and> supplier_count valve_summary = 1
   \<and> valve_risk_row \<in> set (calculate_critical_suppliers pareto_table)"
proof -
  have nonneg: "\<forall>r\<in>set dominant_table. \<forall>v. net_value r = Some v \<longrightarrow> 0 \<le> v"
    by (auto simp: dominant_table_def line_item_net_value)
  have one: "\<forall>r\<in>set dominant_table. product_id r = Some ''A'' \<longrightarrow> description r = Some ''Pump''"
    by (simp add: dominant_table_def line_item_def)
  have share: "series_sum (map net_value (group_rows product_id dominant_table ''A'')) * 100
     > 80 * series_sum (map net_value dominant_table)"
    by (simp add: dominant_spend)
  have z: "(valve_summary, Finite 80) \<in> set (zip (sku_summary pareto_table) (cum_spend_pct (sku_summary pareto_table)))"
    by (subst pareto_pct) (simp add: pareto_summary)
  have c: "fle (Finite 80) 80" "supplier_count valve_summary = 1"
    by (simp_all add: valve_summary_def)
  have out: "valve_risk_row \<in> set (calculate_critical_suppliers pareto_table)"
    by (simp add: pareto_output)
  from critical_suppliers_cumulative_cut [where df = dominant_table and p = "''A''" and d = "''Pump''"]
       nonneg one share
  have "calculate_critical_suppliers dominant_table = []" by blast
  with share z c out show ?thesis by blast
qed

text \<open>
  Claim C1 as stated fails: product A has 90% of the spend and a single supplier, its
  cumulative percentage is 90, above the cut, and the output is empty.
\<close>

theorem dominant_product_not_listed_counterexample:
  "cum_spend_pct (sku_summary dominant_table) = [Finite 90, Finite 100]
   \<and> map supplier_count (sku_summary dominant_table) = [1, 1]
   \<and> calculate_critical_suppliers dominant_table = []"
  by code_simp

section \<open>Volatility Analyzer: claims\<close>

lemma set_calculate_price_volatility:
  "set (calculate_price_volatility df) = fillna0 ` set (price_volatility_groups df)"
  by (simp add: calculate_price_volatility_def)

lemma constant_sum: "\<forall>v\<in>set vs. v = x \<Longrightarrow> sum_list vs = real (length vs) * (x::real)"
  by (induction vs) (auto simp: algebra_simps)

lemma constant_deviation: "\<forall>v\<in>set vs. v = x \<Longrightarrow> sum_list (map (\<lambda>v. (v - x)\<^sup>2) vs) = (0::real)"
  by (induction vs) auto

lemma series_mean_constant:
  assumes "\<forall>v\<in>set (dropna xs). v = x"
  shows "series_mean xs = None \<or> series_mean xs = Some x"
  using constant_sum [OF assms] by (auto simp: series_mean_def Let_def)

lemma series_std_constant:
  assumes "\<forall>v\<in>set (dropna xs). v = x"
  shows "series_std xs = None \<or> series_std xs = Some 0"
proof (cases "length (dropna xs) \<le> 1")
  case True
  then show ?thesis by (simp add: series_std_def Let_def)
next
  case False
  then have "real (length (dropna xs)) \<noteq> 0" by auto
  then have "sum_list (dropna xs) / real (length (dropna xs)) = x"
    using constant_sum [OF assms] by simp
  then show ?thesis
    using False constant_deviation [OF assms] by (simp add: series_std_def Let_def)
qed

lemma cv_pct_constant:
  assumes "std = None \<or> std = Some 0"
  shows "fillna0_fval (cv_pct std mean) = Finite 0"
proof (cases std)
  case None
  then show ?thesis by simp
next
  case (Some s)
  with assms have s: "std = Some 0" by simp
  show ?thesis by (cases mean) (simp_all add: s fdiv_def)
qed

lemma series_std_nonneg:
  assumes "series_std xs = Some s"
  shows "0 \<le> s"
proof -
  let ?vs = "dropna xs"
  let ?m = "sum_list ?vs / real (length ?vs)"
  from assms have n: "\<not> length ?vs \<le> 1"
    and s: "s = sqrt (sum_list (map (\<lambda>x. (x - ?m)\<^sup>2) ?vs) / real (length ?vs - 1))"
    by (auto simp: series_std_def Let_def split: if_splits)
  have "0 \<le> sum_list (map (\<lambda>x. (x - ?m)\<^sup>2) ?vs)"
    by (rule sum_list_nonneg) auto
  then have "0 \<le> sum_list (map (\<lambda>x. (x - ?m)\<^sup>2) ?vs) / real (length ?vs - 1)"
    by (rule divide_nonneg_nonneg) simp
  then show ?thesis unfolding s by simp
qed

lemma cv_pct_sign:
  assumes "\<forall>s. std = Some s \<longrightarrow> 0 \<le> s" and "\<forall>m. mean = Some m \<longrightarrow> 0 \<le> m"
  shows "\<not> fneg (fillna0_fval (cv_pct std mean))"
proof (cases std)
  case None
  then show ?thesis by simp
next
  case s: (Some s')
  show ?thesis
  proof (cases mean)
    case None
    then show ?thesis by (simp add: s)
  next
    case (Some m')
    with s assms have "0 \<le> s'" "0 \<le> m'" by auto
    then have "0 \<le> s' / m' * 100" by simp
    then show ?thesis using \<open>0 \<le> s'\<close> by (simp add: s Some fdiv_def)
  qed
qed

lemma single_price_values:
  assumes "series_nunique xs = 1"
  shows "\<exists>x. \<forall>v\<in>set (dropna xs). v = x"
proof -
  from assms have "length (remdups (dropna xs)) = 1" by (simp add: series_nunique_def)
  then obtain x where "remdups (dropna xs) = [x]" by (cases "remdups (dropna xs)") auto
  then have "set (dropna xs) = {x}" by (metis empty_set list.simps(15) set_remdups)
  then show ?thesis by auto
qed

lemma volatility_single_price:
  assumes v: "v \<in> set (calculate_price_volatility df)"
    and one: "series_nunique (map unit_price (filter (\<lambda>r. product_id r = Some (pv_product_id v)) df)) = 1"
  shows "pv_cv v = Finite 0"
proof -
  from v obtain p d where v': "v = fillna0
      (let prices = map unit_price (group_rows key_product_description df (p, d))
       in \<lparr>pv_product_id = p, pv_description = d, pv_mean = series_mean prices,
           pv_std = series_std prices, pv_cv = cv_pct (series_std prices) (series_mean prices)\<rparr>)"
    by (auto simp: set_calculate_price_volatility price_volatility_groups_def)
  let ?prices = "map unit_price (group_rows key_product_description df (p, d))"
  have pid: "pv_product_id v = p" by (simp add: v' fillna0_def Let_def)
  from single_price_values [OF one] obtain x
    where x: "\<forall>w\<in>set (dropna (map unit_price (filter (\<lambda>r. product_id r = Some p) df))). w = x"
    unfolding pid by blast
  have "set (dropna ?prices) \<subseteq> set (dropna (map unit_price (filter (\<lambda>r. product_id r = Some p) df)))"
    by (auto simp: set_dropna group_rows_def dest: key_product_description_product)
  with x have "\<forall>w\<in>set (dropna ?prices). w = x" by blast
  from cv_pct_constant [OF series_std_constant [OF this]]
  show ?thesis by (simp add: v' fillna0_def Let_def)
qed

lemma volatility_sign:
  assumes v: "v \<in> set (calculate_price_volatility df)"
    and m: "pv_mean v = Some m" "0 \<le> m"
  shows "\<not> fneg (pv_cv v)"
proof -
  from v obtain p d where v': "v = fillna0
      (let prices = map unit_price (group_rows key_product_description df (p, d))
       in \<lparr>pv_product_id = p, pv_description = d, pv_mean = series_mean prices,
           pv_std = series_std prices, pv_cv = cv_pct (series_std prices) (series_mean prices)\<rparr>)"
    by (auto simp: set_calculate_price_volatility price_volatility_groups_def)
  let ?prices = "map unit_price (group_rows key_product_description df (p, d))"
  have mean: "pv_mean v = fillna0_cell (series_mean ?prices)"
    and cv: "pv_cv v = fillna0_fval (cv_pct (series_std ?prices) (series_mean ?prices))"
    by (simp_all add: v' fillna0_def Let_def)
  have "\<forall>m'. series_mean ?prices = Some m' \<longrightarrow> 0 \<le> m'"
    using m mean by auto
  moreover have "\<forall>s. series_std ?prices = Some s \<longrightarrow> 0 \<le> s"
    using series_std_nonneg by blast
  ultimately show ?thesis
    unfolding cv by (intro cv_pct_sign)
qed

text \<open>
  Claim C9, as amended. For every product with exactly one distinct unit price across its
  rows, each row that \<^verbatim>\<open>calculate_price_volatility\<close> reports for it has CV% 0 (a missing
  standard deviation, and 0 / 0, end as 0 after \<^verbatim>\<open>fillna(0)\<close>). CV% is not negative in any
  reported row whose mean price is not negative.
\<close>

theorem volatility_cv_zero_and_sign:
  assumes "v \<in> set (calculate_price_volatility df)"
  shows "(series_nunique (map unit_price (filter (\<lambda>r. product_id r = Some (pv_product_id v)) df)) = 1
            \<longrightarrow> pv_cv v = Finite 0)
       \<and> ((\<exists>m. pv_mean v = Some m \<and> 0 \<le> m) \<longrightarrow> \<not> fneg (pv_cv v))"
  using volatility_single_price [OF assms] volatility_sign [OF assms] by blast

lemma steady_keys: "groupby_keys key_product_description steady_table = [(''P'', ''Hose'')]"
  by code_simp

lemma steady_prices:
  "map unit_price (group_rows key_product_description steady_table (''P'', ''Hose'')) = [Some 10, Some 10]"
  by code_simp

lemma steady_volatility: "calculate_price_volatility steady_table = [steady_vol_row]"
  by (simp add: calculate_price_volatility_def price_volatility_groups_def steady_keys steady_prices
      series_std_def series_mean_def fillna0_def fdiv_def steady_vol_row_def)

lemma steady_nunique:
  "series_nunique (map unit_price (filter (\<lambda>r. product_id r = Some ''P'') steady_table)) = 1"
  by code_simp

theorem volatility_cv_zero_and_sign_witness:
  "steady_vol_row \<in> set (calculate_price_volatility steady_table)
   \<and> series_nunique (map unit_price (filter (\<lambda>r. product_id r = Some (pv_product_id steady_vol_row)) steady_table)) = 1
   \<and> pv_mean steady_vol_row = Some 10 \<and> (0::real) \<le> 10
   \<and> pv_cv steady_vol_row = Finite 0 \<and> \<not> fneg (pv_cv steady_vol_row)"
proof -
  have m: "steady_vol_row \<in> set (calculate_price_volatility steady_table)"
    by (simp add: steady_volatility)
  have p: "pv_product_id steady_vol_row = ''P''" "pv_mean steady_vol_row = Some 10"
    by (simp_all add: steady_vol_row_def)
  from volatility_cv_zero_and_sign [OF m] steady_nunique m p show ?thesis by auto
qed

lemma negative_keys: "groupby_keys key_product_description negative_price_table = [(''N'', ''Rebate'')]"
  by code_simp

lemma negative_prices:
  "map unit_price (group_rows key_product_description negative_price_table (''N'', ''Rebate''))
   = [Some (- 1), Some (- 2), Some (- 3)]"
  by code_simp

text \<open>
  Claim C9 as stated fails in its second part: for the prices -1, -2, -3 the mean is -2,
  the standard deviation 1 and CV% is -50.
\<close>

theorem negative_cv_counterexample:
  "map pv_cv (calculate_price_volatility negative_price_table) = [Finite (- 50)]"
  by (simp add: calculate_price_volatility_def price_volatility_groups_def negative_keys negative_prices
      series_std_def series_mean_def fillna0_def fdiv_def power2_eq_square)

lemma volatility_group_shape:
  assumes "u \<in> set (price_volatility_groups df)"
  shows "\<exists>prices. pv_mean u = series_mean prices \<and> pv_std u = series_std prices
           \<and> pv_cv u = cv_pct (pv_std u) (pv_mean u)"
  using assms by (auto simp: price_volatility_groups_def Let_def)

lemma replace_nan_keeps:
  "replace_nan (CStr x) = CStr x" "replace_nan (CNum (Finite y)) = CNum (Finite y)"
  "replace_nan (CNum PosInf) = CNum PosInf" "replace_nan (CNum NegInf) = CNum NegInf"
  "replace_nan (CNum NaN) = CNone"
  by (simp_all add: replace_nan_def)

text \<open>
  Claim C3 asks for the missing sentinel at the output boundary when the mean is zero and the
  standard deviation is not. The code gives plus infinity: \<^verbatim>\<open>std / 0\<close> is infinite,
  \<^verbatim>\<open>fillna(0)\<close> and \<^verbatim>\<open>to_json_safe_dict\<close> replace NaN only, and the record delivered by the
  endpoint carries the infinite value in its \<^verbatim>\<open>CV_%\<close> field.
\<close>

theorem zero_mean_cv_infinite_at_output:
  assumes "u \<in> set (price_volatility_groups df)"
    and "pv_mean u = Some 0" and "pv_std u = Some s" and "s \<noteq> 0"
  shows "[(''product_id'', CStr (pv_product_id u)), (''description'', CStr (pv_description u)),
          (''mean'', CNum (Finite 0)), (''std'', CNum (Finite s)), (''CV_%'', CNum PosInf)]
         \<in> set (get_price_volatility df)"
proof -
  from volatility_group_shape [OF assms(1)] assms(3)
  obtain prices where "series_std prices = Some s" and cv: "pv_cv u = cv_pct (pv_std u) (pv_mean u)"
    by auto
  then have "0 \<le> s" using series_std_nonneg by blast
  with assms(4) have "0 < s" by simp
  then have inf: "pv_cv u = PosInf" by (simp add: cv assms fdiv_def)
  have "fillna0 u \<in> set (calculate_price_volatility df)"
    using assms(1) by (simp add: set_calculate_price_volatility)
  then have "map (\<lambda>(col, c). (col, replace_nan c))
               [(''product_id'', CStr (pv_product_id (fillna0 u))), (''description'', CStr (pv_description (fillna0 u))),
                (''mean'', cell_of_num (pv_mean (fillna0 u))), (''std'', cell_of_num (pv_std (fillna0 u))),
                (''CV_%'', CNum (pv_cv (fillna0 u)))]
             \<in> set (get_price_volatility df)"
    unfolding get_price_volatility_def to_json_safe_dict_def volatility_frame_def
    by (simp add: image_iff) blast
  then show ?thesis
    by (simp add: fillna0_def assms inf replace_nan_keeps)
qed

lemma zero_mean_keys: "groupby_keys key_product_description zero_mean_table = [(''Z'', ''Adjustment'')]"
  by code_simp

lemma zero_mean_prices:
  "map unit_price (group_rows key_product_description zero_mean_table (''Z'', ''Adjustment''))
   = [Some (- 1), Some 0, Some 1]"
  by code_simp

lemma zero_mean_groups: "price_volatility_groups zero_mean_table = [zero_mean_vol_row]"
  by (simp add: price_volatility_groups_def zero_mean_keys zero_mean_prices
      series_std_def series_mean_def fdiv_def zero_mean_vol_row_def)

theorem zero_mean_cv_infinite_at_output_witness:
  "zero_mean_vol_row \<in> set (price_volatility_groups zero_mean_table)
   \<and> pv_mean zero_mean_vol_row = Some 0 \<and> pv_std zero_mean_vol_row = Some 1 \<and> (1::real) \<noteq> 0
   \<and> [(''product_id'', CStr ''Z''), (''description'', CStr ''Adjustment''),
       (''mean'', CNum (Finite 0)), (''std'', CNum (Finite 1)), (''CV_%'', CNum PosInf)]
      \<in> set (get_price_volatility zero_mean_table)"
proof -
  have m: "zero_mean_vol_row \<in> set (price_volatility_groups zero_mean_table)"
    by (simp add: zero_mean_groups)
  have f: "pv_mean zero_mean_vol_row = Some 0" "pv_std zero_mean_vol_row = Some 1"
    by (simp_all add: zero_mean_vol_row_def)
  have n: "(1::real) \<noteq> 0" by simp
  from zero_mean_cv_infinite_at_output [OF m f n] m f
  show ?thesis by (simp add: zero_mean_vol_row_def)
qed

section \<open>Demand Forecaster: claims\<close>


















end
